theory Spec2Isabelle
  imports Main
begin

section \<open>Fetch with retry: \<open>fetchImageBuffer\<close>\<close>

text \<open>
  The source (part_000, lines 166-197) creates a 20 s timeout, fetches the URL, throws on a
  non-2xx status, reads the body, and in its \<open>catch\<close> clears the timeout, sleeps
  \<open>1000 * 2^retryCount\<close> ms and calls itself while \<open>retryCount < 3\<close>; the \<open>finally\<close>
  clears the timeout again on every path.

  The network is an oracle: \<open>net k\<close> is what the fetch of the invocation with
  \<open>retryCount = k\<close> does. The effects are recorded as a trace of events; a timeout handle
  is identified by the \<open>retryCount\<close> of the invocation that created it, and \<open>Fetch\<close>
  is the call of \<open>fetch\<close> at line 171.

  The retry is \<open>return fetchImageBuffer(...)\<close> with no \<open>await\<close>: the callee runs to its
  first \<open>await\<close> (its first two events, \<open>createTimeout\<close> and the call of \<open>fetch\<close>),
  then the caller's \<open>finally\<close> clears the caller's timeout, then the callee goes on.
\<close>

type_synonym buffer = "nat list"

datatype fetch_error =
    FetchRejected string
  | FailedToFetchImage nat
  | BodyRejected string

datatype fetch_outcome =
    Rejects string
  | Responds nat "string + buffer"

datatype event =
    CreateTimeout nat nat
  | Fetch string string
  | ClearTimeout nat
  | Sleep nat

definition response_ok :: "nat \<Rightarrow> bool" where
  "response_ok status = (200 \<le> status \<and> status \<le> 299)"

fun try_fetch :: "fetch_outcome \<Rightarrow> fetch_error + buffer" where
  "try_fetch (Rejects msg) = Inl (FetchRejected msg)"
| "try_fetch (Responds status body) =
     (if \<not> response_ok status then Inl (FailedToFetchImage status)
      else case body of Inl msg \<Rightarrow> Inl (BodyRejected msg) | Inr buf \<Rightarrow> Inr buf)"

function fetchImageBuffer ::
  "(nat \<Rightarrow> fetch_outcome) \<Rightarrow> string \<Rightarrow> string \<Rightarrow> nat \<Rightarrow> (fetch_error + buffer) \<times> event list" where
  "fetchImageBuffer net url referer retryCount =
     (case try_fetch (net retryCount) of
        Inr buf \<Rightarrow>
          (Inr buf, [CreateTimeout retryCount 20000, Fetch url referer, ClearTimeout retryCount])
      | Inl err \<Rightarrow>
          if retryCount < 3 then
            (case fetchImageBuffer net url referer (retryCount + 1) of
               (r, evs) \<Rightarrow>
                 (r, [CreateTimeout retryCount 20000, Fetch url referer, ClearTimeout retryCount,
                      Sleep (1000 * 2 ^ retryCount)]
                     @ take 2 evs @ [ClearTimeout retryCount] @ drop 2 evs))
          else
            (Inl err, [CreateTimeout retryCount 20000, Fetch url referer, ClearTimeout retryCount,
                       ClearTimeout retryCount]))"
  by pat_completeness auto
termination
  by (relation "measure (\<lambda>(net, url, referer, retryCount). 3 - retryCount)") auto

declare fetchImageBuffer.simps [simp del]

text \<open>Readings of a trace: the fetches issued, the sleeps taken, the timers still armed.\<close>

fun fetches :: "event list \<Rightarrow> nat" where
  "fetches [] = 0"
| "fetches (Fetch u r # es) = Suc (fetches es)"
| "fetches (e # es) = fetches es"

fun sleeps :: "event list \<Rightarrow> nat list" where
  "sleeps [] = []"
| "sleeps (Sleep ms # es) = ms # sleeps es"
| "sleeps (e # es) = sleeps es"

fun pending_timeouts :: "nat list \<Rightarrow> event list \<Rightarrow> nat list" where
  "pending_timeouts armed [] = armed"
| "pending_timeouts armed (CreateTimeout h ms # es) = pending_timeouts (h # armed) es"
| "pending_timeouts armed (ClearTimeout h # es) = pending_timeouts (removeAll h armed) es"
| "pending_timeouts armed (e # es) = pending_timeouts armed es"

section \<open>Database helpers: \<open>getComicFromDB\<close> and \<open>saveComicToDB\<close>\<close>

text \<open>
  The table \<open>comics\<close> is keyed by \<open>slug\<close> (the upsert's \<open>ON CONFLICT (slug)\<close>), so it is a
  map from slugs to rows. The SQL capability is outside the repository; whether a
  statement is accepted or throws is an oracle indexed by the helper's \<open>retryCount\<close>.
\<close>

record comic_row =
  url :: string
  image_url :: string
  total_images :: nat

type_synonym comics_table = "string \<rightharpoonup> comic_row"

datatype jsval = Null | Undefined | Str string

fun js_string :: "jsval \<Rightarrow> string" where
  "js_string (Str s) = s"
| "js_string Null = []"
| "js_string Undefined = []"

text \<open>\<open>Array.prototype.join(',')\<close> and \<open>String.prototype.split(',')\<close>.\<close>

fun join_comma :: "string list \<Rightarrow> string" where
  "join_comma [] = []"
| "join_comma [s] = s"
| "join_comma (s # t # ss) = s @ CHR '','' # join_comma (t # ss)"

fun split_comma :: "string \<Rightarrow> string list" where
  "split_comma [] = [[]]"
| "split_comma (c # cs) =
     (if c = CHR '','' then [] # split_comma cs
      else case split_comma cs of
             w # ws \<Rightarrow> (c # w) # ws
           | [] \<Rightarrow> [[c]])"

function getComicFromDB ::
  "(nat \<Rightarrow> bool) \<Rightarrow> comics_table \<Rightarrow> string \<Rightarrow> nat \<Rightarrow> string list option" where
  "getComicFromDB query_ok db slug retryCount =
     (if query_ok retryCount then
        (case db slug of
           Some row \<Rightarrow> if image_url row \<noteq> [] then Some (split_comma (image_url row)) else None
         | None \<Rightarrow> None)
      else if retryCount < 2 then getComicFromDB query_ok db slug (retryCount + 1)
      else None)"
  by pat_completeness auto
termination
  by (relation "measure (\<lambda>(query_ok, db, slug, retryCount). 2 - retryCount)") auto

declare getComicFromDB.simps [simp del]

definition upsert_comic :: "comics_table \<Rightarrow> string \<Rightarrow> string \<Rightarrow> string \<Rightarrow> nat \<Rightarrow> comics_table" where
  "upsert_comic db slug fullUrl joined n =
     (case db slug of
        None \<Rightarrow> db(slug \<mapsto> \<lparr>url = fullUrl, image_url = joined, total_images = n\<rparr>)
      | Some row \<Rightarrow> db(slug \<mapsto> row\<lparr>image_url := joined, total_images := n\<rparr>))"

function saveComicToDB ::
  "(nat \<Rightarrow> bool) \<Rightarrow> comics_table \<Rightarrow> string \<Rightarrow> string \<Rightarrow> jsval list option \<Rightarrow> nat
     \<Rightarrow> bool \<times> comics_table" where
  "saveComicToDB insert_ok db slug fullUrl imageUrls retryCount =
     (case imageUrls of
        None \<Rightarrow> (False, db)
      | Some urls \<Rightarrow>
          if urls = [] then (False, db)
          else
            let validUrls = filter (\<lambda>u. u \<noteq> Null \<and> u \<noteq> Undefined) urls in
            if validUrls = [] then (False, db)
            else if insert_ok retryCount then
              (True, upsert_comic db slug fullUrl (join_comma (map js_string validUrls))
                       (length validUrls))
            else if retryCount < 2 then
              saveComicToDB insert_ok db slug fullUrl imageUrls (retryCount + 1)
            else (False, db))"
  by pat_completeness auto
termination
  by (relation "measure (\<lambda>(insert_ok, db, slug, fullUrl, imageUrls, retryCount). 2 - retryCount)")
     auto

declare saveComicToDB.simps [simp del]

section \<open>Comic retrieval and ingestion: \<open>/get-comic\<close>\<close>

text \<open>
  The in-memory cache is \<open>new NodeCache({ stdTTL: 1800 })\<close>: a key maps to a value and
  the time (ms) at which it expires; a lookup at time \<open>now\<close> sees the value while
  \<open>now\<close> has not passed that time.
\<close>

record comic_body =
  success :: bool
  images :: "jsval list"
  cached :: bool
  source :: string
  warning :: "string option"

datatype response =
    Json nat comic_body
  | ErrorJson nat string

type_synonym memory_cache = "string \<rightharpoonup> (nat \<times> comic_body)"

definition stdTTL :: nat where
  "stdTTL = 1800"

definition cache_get :: "memory_cache \<Rightarrow> nat \<Rightarrow> string \<Rightarrow> comic_body option" where
  "cache_get c now key =
     (case c key of
        None \<Rightarrow> None
      | Some (expires, v) \<Rightarrow> if now \<le> expires then Some v else None)"

definition cache_set :: "memory_cache \<Rightarrow> nat \<Rightarrow> string \<Rightarrow> comic_body \<Rightarrow> memory_cache" where
  "cache_set c now key v = c(key \<mapsto> (now + stdTTL * 1000, v))"

record server_state =
  comics :: comics_table
  cache :: memory_cache

text \<open>
  What the outside world does during one request: the page visit (lines 1447-1474) either
  throws, shows a 404 title, or yields the \<open>dataset.src || src\<close> values of the images;
  \<open>upload_attempt i r\<close> is the result of the \<open>try\<close> block for image index \<open>i\<close> at
  \<open>retries = r\<close>: the URL returned by \<open>uploadToR2\<close>, or \<open>None\<close> when
  \<open>fetchImageBuffer\<close> or \<open>uploadToR2\<close> throws.
\<close>

datatype scrape_outcome =
    ScrapeThrows string
  | TitleHas404
  | Extracted "string list"

record env =
  now :: nat
  db_read_ok :: "nat \<Rightarrow> bool"
  scrape :: scrape_outcome
  upload_attempt :: "nat \<Rightarrow> nat \<Rightarrow> string option"
  db_write_ok :: "nat \<Rightarrow> bool"
  db_recheck_ok :: "nat \<Rightarrow> bool"

definition urlBase :: string where
  "urlBase = ''https://doujindesu.tv/''"

text \<open>\<open>slug?.replace(/^\//, '').replace(/\/$/, '')\<close>\<close>

definition cleanSlug :: "string option \<Rightarrow> string option" where
  "cleanSlug slug =
     (case slug of
        None \<Rightarrow> None
      | Some s \<Rightarrow>
          let s1 = (case s of c # cs \<Rightarrow> if c = CHR ''/'' then cs else s | [] \<Rightarrow> s);
              s2 = (if s1 \<noteq> [] \<and> last s1 = CHR ''/'' then butlast s1 else s1)
          in Some s2)"

definition absolute_http :: "string \<Rightarrow> bool" where
  "absolute_http src = (src \<noteq> [] \<and> take 4 src = ''http'')"

text \<open>The \<open>while (retries <= maxRetries)\<close> loop of one image, \<open>maxRetries = 2\<close>.\<close>

function upload_image :: "(nat \<Rightarrow> string option) \<Rightarrow> nat \<Rightarrow> jsval" where
  "upload_image attempt retries =
     (if retries \<le> 2 then
        (case attempt retries of
           Some uploadResult \<Rightarrow> Str uploadResult
         | None \<Rightarrow> if retries + 1 > 2 then Null else upload_image attempt (retries + 1))
      else Undefined)"
  by pat_completeness auto
termination
  by (relation "measure (\<lambda>(attempt, retries). 3 - retries)") auto

declare upload_image.simps [simp del]

text \<open>The \<open>for (let i = 0; i < imageUrls.length; i += 3)\<close> loop over batches.\<close>

function upload_batches ::
  "(nat \<Rightarrow> nat \<Rightarrow> string option) \<Rightarrow> string list \<Rightarrow> nat \<Rightarrow> jsval list \<Rightarrow> jsval list" where
  "upload_batches attempt imageUrls i uploadedUrls =
     (if i < length imageUrls then
        let batch = take 3 (drop i imageUrls);
            results = map (\<lambda>batchIndex. upload_image (attempt (i + batchIndex)) 0)
                          [0..<length batch]
        in upload_batches attempt imageUrls (i + 3)
             (uploadedUrls @ filter (\<lambda>u. u \<noteq> Null) results)
      else uploadedUrls)"
  by pat_completeness auto
termination
  by (relation "measure (\<lambda>(attempt, imageUrls, i, uploadedUrls). length imageUrls - i)") auto

declare upload_batches.simps [simp del]

definition database_hit :: "string list \<Rightarrow> string \<Rightarrow> comic_body" where
  "database_hit dbImages src =
     \<lparr>success = True, images = map Str dbImages, cached = True, source = src, warning = None\<rparr>"

definition get_comic :: "env \<Rightarrow> string option \<Rightarrow> server_state \<Rightarrow> response \<times> server_state" where
  "get_comic e slug st =
     (case cleanSlug slug of
        None \<Rightarrow> (ErrorJson 400 ''Parameter url/slug wajib'', st)
      | Some clean \<Rightarrow>
          if clean = [] then (ErrorJson 400 ''Parameter url/slug wajib'', st)
          else
            case getComicFromDB (db_read_ok e) (comics st) clean 0 of
              Some dbImages \<Rightarrow> (Json 200 (database_hit dbImages ''database''), st)
            | None \<Rightarrow>
                let cacheKey = ''comic-'' @ clean in
                case cache_get (cache st) (now e) cacheKey of
                  Some hit \<Rightarrow> (Json 200 hit, st)
                | None \<Rightarrow>
                    (case scrape e of
                       ScrapeThrows msg \<Rightarrow>
                         (case getComicFromDB (db_recheck_ok e) (comics st) clean 0 of
                            Some dbImages \<Rightarrow>
                              (Json 200 (database_hit dbImages
                                 ''database (race condition recovery)''), st)
                          | None \<Rightarrow> (ErrorJson 500 msg, st))
                     | TitleHas404 \<Rightarrow> (ErrorJson 404 ''Comic not found'', st)
                     | Extracted srcs \<Rightarrow>
                         let fullUrl = urlBase @ clean @ ''/'';
                             imageUrls = filter absolute_http srcs;
                             uploadedUrls = upload_batches (upload_attempt e) imageUrls 0 [];
                             db' = (if length uploadedUrls > 0
                                    then snd (saveComicToDB (db_write_ok e) (comics st) clean
                                                fullUrl (Some uploadedUrls) 0)
                                    else comics st);
                             resp = \<lparr>success = True, images = uploadedUrls, cached = False,
                                     source = ''freshly scraped'',
                                     warning = (if length uploadedUrls \<noteq> length imageUrls
                                                then Some ''Beberapa gambar gagal diupload''
                                                else None)\<rparr>
                         in (Json 200 resp,
                             \<lparr>comics = db', cache = cache_set (cache st) (now e) cacheKey resp\<rparr>)))"

text \<open>
  The successfully uploaded URLs of a scrape of \<open>n\<close> images, in index order: image \<open>i\<close>
  contributes the result of its retry loop unless that result is \<open>null\<close>.
\<close>

definition successful_uploads :: "(nat \<Rightarrow> nat \<Rightarrow> string option) \<Rightarrow> nat \<Rightarrow> jsval list" where
  "successful_uploads attempt n =
     filter (\<lambda>u. u \<noteq> Null) (map (\<lambda>i. upload_image (attempt i) 0) [0..<n])"

text \<open>A request takes the fresh-scrape path: valid slug, no database hit, no cache hit.\<close>

definition scrapes_fresh :: "env \<Rightarrow> string option \<Rightarrow> server_state \<Rightarrow> string \<Rightarrow> string list \<Rightarrow> bool" where
  "scrapes_fresh e slug st clean srcs =
     (cleanSlug slug = Some clean \<and> clean \<noteq> [] \<and>
      getComicFromDB (db_read_ok e) (comics st) clean 0 = None \<and>
      cache_get (cache st) (now e) (''comic-'' @ clean) = None \<and>
      scrape e = Extracted srcs)"

section \<open>Browser pool\<close>

text \<open>
  \<open>browserPool\<close> and \<open>isPoolInitialized\<close> are the two globals of the source (lines 62-64).
  Sessions are numbered in launch order. \<open>checkedOut\<close> and \<open>closed\<close> are bookkeeping of
  the model only: the sessions handed out by \<open>getBrowser\<close> and not yet released, and
  the sessions whose \<open>close()\<close> has been called. The source fixes \<open>POOL_SIZE = 3\<close>; the
  functions take the size as a parameter.
\<close>

record pool =
  browserPool :: "nat list"
  isPoolInitialized :: bool
  launched :: nat
  checkedOut :: "nat list"
  closed :: "nat list"

definition POOL_SIZE :: nat where
  "POOL_SIZE = 3"

definition empty_pool :: pool where
  "empty_pool = \<lparr>browserPool = [], isPoolInitialized = False, launched = 0,
                  checkedOut = [], closed = []\<rparr>"

text \<open>One iteration of the launch loop: \<open>puppeteer.launch\<close> resolves or throws.\<close>

definition launch :: "bool \<Rightarrow> pool \<Rightarrow> pool" where
  "launch ok p =
     (if ok then p\<lparr>browserPool := browserPool p @ [launched p], launched := Suc (launched p)\<rparr>
      else p)"

definition initBrowserPool :: "nat \<Rightarrow> (nat \<Rightarrow> bool) \<Rightarrow> pool \<Rightarrow> pool" where
  "initBrowserPool P launch_ok p =
     (if isPoolInitialized p then p
      else (foldl (\<lambda>q i. launch (launch_ok i) q) p [0..<P])\<lparr>isPoolInitialized := True\<rparr>)"

text \<open>
  \<open>getBrowser\<close> polls every 100 ms while the pool is empty; \<open>None\<close> is the call still
  waiting, with nothing popped.
\<close>

definition getBrowser :: "nat \<Rightarrow> (nat \<Rightarrow> bool) \<Rightarrow> pool \<Rightarrow> nat option \<times> pool" where
  "getBrowser P launch_ok p =
     (let q = (if \<not> isPoolInitialized p then initBrowserPool P launch_ok p else p) in
      if browserPool q = [] then (None, q)
      else (Some (last (browserPool q)),
            q\<lparr>browserPool := butlast (browserPool q),
              checkedOut := last (browserPool q) # checkedOut q\<rparr>))"

definition releaseBrowser :: "nat \<Rightarrow> nat \<Rightarrow> pool \<Rightarrow> pool" where
  "releaseBrowser P browser p =
     (if length (browserPool p) < P
      then p\<lparr>browserPool := browserPool p @ [browser],
             checkedOut := remove1 browser (checkedOut p)\<rparr>
      else p\<lparr>closed := browser # closed p,
             checkedOut := remove1 browser (checkedOut p)\<rparr>)"

text \<open>
  The hourly timer (lines 113-123): close every idle session, empty the pool, clear the
  flag, initialise again. \<open>recycle\<close> is the schedule in which the new launches run with
  no request in between, as the launches at startup do, where the server listens only
  once \<open>initBrowserPool\<close> is done (lines 2156-2161). The timer does not await its
  \<open>initBrowserPool\<close>, and \<open>isPoolInitialized\<close> is set only after the launches, so in
  other schedules a \<open>getBrowser\<close> arriving meanwhile starts a further
  \<open>initBrowserPool\<close> and a release arriving meanwhile pushes into the pool being
  refilled; those schedules are not part of this model, which is exact only for histories
  without a recycle and says nothing about the size of the idle pool after one.
\<close>

definition recycle :: "nat \<Rightarrow> (nat \<Rightarrow> bool) \<Rightarrow> pool \<Rightarrow> pool" where
  "recycle P launch_ok p =
     initBrowserPool P launch_ok
       (p\<lparr>closed := browserPool p @ closed p, browserPool := [], isPoolInitialized := False\<rparr>)"

datatype pool_event =
    Acquire
  | Release nat
  | Recycle

text \<open>A request releases only a session it holds.\<close>

fun pool_step :: "nat \<Rightarrow> (nat \<Rightarrow> bool) \<Rightarrow> pool \<Rightarrow> pool_event \<Rightarrow> pool" where
  "pool_step P launch_ok p Acquire = snd (getBrowser P launch_ok p)"
| "pool_step P launch_ok p (Release b) =
     (if b \<in> set (checkedOut p) then releaseBrowser P b p else p)"
| "pool_step P launch_ok p Recycle = recycle P launch_ok p"

definition pool_run :: "nat \<Rightarrow> (nat \<Rightarrow> bool) \<Rightarrow> pool_event list \<Rightarrow> pool" where
  "pool_run P launch_ok evs =
     foldl (pool_step P launch_ok) (initBrowserPool P launch_ok empty_pool) evs"

text \<open>The invariant that holds between recycles.\<close>

definition pool_inv :: "nat \<Rightarrow> pool \<Rightarrow> bool" where
  "pool_inv P p = (isPoolInitialized p \<and> length (checkedOut p) + length (browserPool p) \<le> P)"

section \<open>Single-flight locks of the batch endpoints\<close>

text \<open>
  \<open>/auto-json\<close> and \<open>/auto-fetch\<close> test and set \<open>autoFetchInProgress\<close> (line 276);
  \<open>/auto-thumbnail\<close> tests and sets \<open>autoThumbnailInProgress\<close> (line 1780). Each handler
  runs from its check to the assignment of the flag without an \<open>await\<close>, so the check and
  the set are one step. \<open>inFlight\<close> is bookkeeping of the model: the jobs that have set
  their flag and not yet called \<open>releaseLock\<close>.
\<close>

datatype endpoint = AutoJson | AutoFetch | AutoThumbnail

record operation =
  op_file :: "string option"
  op_query :: "string option"
  startedAt :: int

record locks =
  autoFetchInProgress :: bool
  currentAutoFetchOperation :: "operation option"
  autoThumbnailInProgress :: bool
  currentThumbnailOperation :: "operation option"
  inFlight :: "(endpoint \<times> operation) list"

record currentOperation =
  identity :: "string option"
  rej_startedAt :: "int option"
  elapsedSeconds :: int

datatype start_result =
    Started
  | Status400
  | Status429 currentOperation

definition no_locks :: locks where
  "no_locks = \<lparr>autoFetchInProgress = False, currentAutoFetchOperation = None,
               autoThumbnailInProgress = False, currentThumbnailOperation = None,
               inFlight = []\<rparr>"

text \<open>
  The body of the 429 answer: \<open>current?.file\<close> or \<open>current?.query\<close>,
  \<open>current?.startedAt\<close>, and \<open>Math.floor((Date.now() - current.startedAt) / 1000)\<close>.
\<close>

definition rejection :: "(operation \<Rightarrow> string option) \<Rightarrow> operation option \<Rightarrow> int \<Rightarrow> currentOperation" where
  "rejection field cur t =
     \<lparr>identity = (case cur of None \<Rightarrow> None | Some c \<Rightarrow> field c),
      rej_startedAt = map_option startedAt cur,
      elapsedSeconds = (case cur of None \<Rightarrow> 0 | Some c \<Rightarrow> (t - startedAt c) div 1000)\<rparr>"

definition falsy :: "string option \<Rightarrow> bool" where
  "falsy q = (q = None \<or> q = Some [])"

definition auto_json_start :: "int \<Rightarrow> string option \<Rightarrow> locks \<Rightarrow> start_result \<times> locks" where
  "auto_json_start t file_param l =
     (let jsonFilePath = (case file_param of
                            None \<Rightarrow> ''slug.json''
                          | Some f \<Rightarrow> if f = [] then ''slug.json'' else f);
          job = \<lparr>op_file = Some jsonFilePath, op_query = None, startedAt = t\<rparr>
      in if autoFetchInProgress l
         then (Status429 (rejection op_file (currentAutoFetchOperation l) t), l)
         else (Started,
               l\<lparr>autoFetchInProgress := True, currentAutoFetchOperation := Some job,
                 inFlight := (AutoJson, job) # inFlight l\<rparr>))"

definition auto_fetch_start :: "int \<Rightarrow> string option \<Rightarrow> locks \<Rightarrow> start_result \<times> locks" where
  "auto_fetch_start t q l =
     (let job = \<lparr>op_file = None, op_query = q, startedAt = t\<rparr> in
      if falsy q then (Status400, l)
      else if autoFetchInProgress l
      then (Status429 (rejection op_query (currentAutoFetchOperation l) t), l)
      else (Started,
            l\<lparr>autoFetchInProgress := True, currentAutoFetchOperation := Some job,
              inFlight := (AutoFetch, job) # inFlight l\<rparr>))"

definition auto_thumbnail_start :: "int \<Rightarrow> string option \<Rightarrow> locks \<Rightarrow> start_result \<times> locks" where
  "auto_thumbnail_start t q l =
     (let job = \<lparr>op_file = None, op_query = q, startedAt = t\<rparr> in
      if falsy q then (Status400, l)
      else if autoThumbnailInProgress l
      then (Status429 (rejection op_query (currentThumbnailOperation l) t), l)
      else (Started,
            l\<lparr>autoThumbnailInProgress := True, currentThumbnailOperation := Some job,
              inFlight := (AutoThumbnail, job) # inFlight l\<rparr>))"

fun batch_start :: "endpoint \<Rightarrow> int \<Rightarrow> string option \<Rightarrow> locks \<Rightarrow> start_result \<times> locks" where
  "batch_start AutoJson t param l = auto_json_start t param l"
| "batch_start AutoFetch t param l = auto_fetch_start t param l"
| "batch_start AutoThumbnail t param l = auto_thumbnail_start t param l"

text \<open>\<open>releaseLock\<close> of the two auto-fetch handlers, and of the thumbnail handler.\<close>

fun releaseLock :: "endpoint \<Rightarrow> locks \<Rightarrow> locks" where
  "releaseLock AutoThumbnail l =
     l\<lparr>autoThumbnailInProgress := False, currentThumbnailOperation := None,
       inFlight := filter (\<lambda>job. fst job \<noteq> AutoThumbnail) (inFlight l)\<rparr>"
| "releaseLock ep l =
     l\<lparr>autoFetchInProgress := False, currentAutoFetchOperation := None,
       inFlight := filter (\<lambda>job. fst job \<noteq> ep) (inFlight l)\<rparr>"

datatype lock_event =
    StartRequest endpoint int "string option"
  | Finish endpoint

text \<open>Only a job that is in flight reaches its \<open>releaseLock\<close>.\<close>

fun lock_step :: "locks \<Rightarrow> lock_event \<Rightarrow> locks" where
  "lock_step l (StartRequest ep t param) = snd (batch_start ep t param l)"
| "lock_step l (Finish ep) = (if ep \<in> fst ` set (inFlight l) then releaseLock ep l else l)"

definition lock_run :: "lock_event list \<Rightarrow> locks" where
  "lock_run evs = foldl lock_step no_locks evs"

text \<open>The field of the in-flight operation that an endpoint's 429 answer reports.\<close>

fun reported_field :: "endpoint \<Rightarrow> operation \<Rightarrow> string option" where
  "reported_field AutoJson = op_file"
| "reported_field AutoFetch = op_query"
| "reported_field AutoThumbnail = op_query"

definition same_flag :: "endpoint \<Rightarrow> endpoint \<Rightarrow> bool" where
  "same_flag a b = ((a = AutoThumbnail) = (b = AutoThumbnail))"

text \<open>The jobs in flight behind each flag, and the invariant tying them to the flags.\<close>

definition fetch_jobs :: "locks \<Rightarrow> (endpoint \<times> operation) list" where
  "fetch_jobs l = filter (\<lambda>j. fst j \<noteq> AutoThumbnail) (inFlight l)"

definition thumbnail_jobs :: "locks \<Rightarrow> (endpoint \<times> operation) list" where
  "thumbnail_jobs l = filter (\<lambda>j. fst j = AutoThumbnail) (inFlight l)"

definition lock_inv :: "locks \<Rightarrow> bool" where
  "lock_inv l =
     ((autoFetchInProgress l \<longrightarrow>
         (\<exists>job. fetch_jobs l = [job] \<and> currentAutoFetchOperation l = Some (snd job)))
      \<and> (\<not> autoFetchInProgress l \<longrightarrow> fetch_jobs l = [])
      \<and> (autoThumbnailInProgress l \<longrightarrow>
         (\<exists>job. thumbnail_jobs l = [job] \<and> currentThumbnailOperation l = Some (snd job)))
      \<and> (\<not> autoThumbnailInProgress l \<longrightarrow> thumbnail_jobs l = []))"

section \<open>Manifest-driven orchestrator: \<open>/auto-json\<close>\<close>

text \<open>
  \<open>jsonData.chapters\<close> is one array: \<open>processChapters\<close> receives it as \<open>chapters\<close>, cuts
  it into chunks with \<open>slice\<close> (copies) before the first chunk runs, and after each
  chunk removes entries from the same array with \<open>splice\<close> and rewrites the file.
  \<open>chapters\<close> below is that array, \<open>file_chapters\<close> the chapter list last written to
  the file, \<open>processed\<close> and \<open>results\<close> the two locals of \<open>processChapters\<close>;
  \<open>resets\<close> counts the executions of the deadline-reset branch (lines 373-377) and
  \<open>pauses\<close> the 5 s sleeps of the outer loop (line 575).

  The callbacks of a chunk run concurrently under \<open>Promise.all\<close>. When one of them
  rejects, \<open>Promise.all\<close> rejects at once and the loop goes on, while the other
  callbacks of the chunk are still running: one that succeeds later still pushes its
  entry to \<open>processed\<close>. \<open>in_flight\<close> holds the entries of such callbacks that have
  not been pushed yet.

  What the outside world does during one chunk is a \<open>chunk_env\<close>: whether
  \<open>controller.signal.aborted\<close> reads true at the top of the chunk, what the request for
  the chapter at each position does, whether \<open>writeFile\<close> succeeds, and for an entry
  still in flight (named by its index) whether its push happens before the chunk looks
  at \<open>processed\<close> (line 518), while the file is being written, or not during this chunk.
\<close>

record manifest_chapter =
  chapter_slug :: "string option"
  chapter_title :: "string option"

record js_error =
  err_name :: string
  err_message :: string

datatype fetch_result =
    Resolved bool
  | Threw js_error

datatype status = Ok | OkRetry | Failed | RetryFailed | Aborted | ProcessingError

datatype landing = BeforeRewrite | DuringWrite | NotYet

record chunk_env =
  aborted_now :: bool
  first_fetch :: "nat \<Rightarrow> fetch_result"
  write_ok :: bool
  lands :: "nat \<Rightarrow> landing"

record manifest =
  chapters :: "manifest_chapter list"
  file_chapters :: "manifest_chapter list"
  processed :: "(nat \<times> manifest_chapter) list"
  in_flight :: "(nat \<times> manifest_chapter) list"
  results :: "(manifest_chapter \<times> status) list"
  resets :: nat
  pauses :: nat

definition concurrencyLimit :: nat where
  "concurrencyLimit = 3"

text \<open>\<open>String.prototype.includes\<close>\<close>

definition js_includes :: "string \<Rightarrow> string \<Rightarrow> bool" where
  "js_includes s p = list_ex (\<lambda>i. take (length p) (drop i s) = p) [0..<Suc (length s)]"

definition transient :: "js_error \<Rightarrow> bool" where
  "transient e =
     (err_name e = ''AbortError'' \<or> err_name e = ''TimeoutError'' \<or>
      js_includes (err_message e) ''network'' \<or> js_includes (err_message e) ''timeout'')"

text \<open>
  One chapter of a chunk (lines 384-511): the callback resolves with a status, having
  pushed the chapter to \<open>processed\<close> or not, or it rejects. \<open>Resolved b\<close> is a response
  whose \<open>data.success\<close> is truthy (\<open>b\<close>) or not.

  \<open>slug\<close> and \<open>title\<close> are declared with \<open>const\<close> inside the \<open>try\<close> block (line 386),
  so they are not in scope in the \<open>catch\<close>: for an error classed as transient, the
  \<open>console.log\<close> that opens the retry branch (line 450) throws a \<open>ReferenceError\<close>, the
  callback rejects, and the retry below it (the statuses \<open>ok (retry)\<close> and
  \<open>retry_failed\<close>) is never reached.
\<close>

definition process_chapter :: "fetch_result \<Rightarrow> manifest_chapter \<Rightarrow> js_error + status \<times> bool" where
  "process_chapter first ch =
     (if falsy (chapter_slug ch) then Inr (Failed, False)
      else case first of
             Resolved ok \<Rightarrow> if \<not> ok then Inr (Failed, False) else Inr (Ok, True)
           | Threw err \<Rightarrow>
               if transient err then
                 Inl \<lparr>err_name = ''ReferenceError'', err_message = ''title is not defined''\<rparr>
               else Inr ((if err_name err = ''AbortError'' then Aborted else ProcessingError),
                         False))"

text \<open>\<open>array.splice(index, 1)\<close>: removes the entry at \<open>index\<close>, nothing when out of range.\<close>

definition splice1 :: "nat \<Rightarrow> 'a list \<Rightarrow> 'a list" where
  "splice1 i xs = take i xs @ drop (Suc i) xs"

text \<open>
  The body of the \<open>try\<close> of one chunk (lines 367-543): \<open>Inr\<close> when it completes, \<open>Inl\<close>
  with the error and the state reached when it throws. The entries pushed by the
  chapters of the chunk are listed in position order; they are sorted by index, highest
  first, before use, and their indices are distinct.

  When a callback rejects, the \<open>results.push\<close> and the rewrite are skipped; the entries
  of the callbacks that succeed are pushed at once or stay in flight. When all
  callbacks resolve, the entries in flight that arrive in time are spliced with the
  chunk's own; those arriving while the file is written are wiped by
  \<open>processed.length = 0\<close> when the write succeeds and stay in \<open>processed\<close> otherwise.
\<close>

definition process_chunk ::
  "chunk_env \<Rightarrow> nat \<Rightarrow> manifest_chapter list \<Rightarrow> manifest \<Rightarrow> js_error \<times> manifest + manifest" where
  "process_chunk env chunkIndex chunk m =
     (if aborted_now env \<and> chapters m = [] then
        Inl (\<lparr>err_name = ''Error'', err_message = ''Operation aborted - no chapters remaining''\<rparr>,
             m)
      else
        let m0 = (if aborted_now env then m\<lparr>resets := Suc (resets m)\<rparr> else m);
            outcomes = map (\<lambda>(chapterIndex, ch).
                              (chapterIndex, ch,
                               process_chapter (first_fetch env chapterIndex) ch))
                           (enumerate 0 chunk);
            rejections = List.map_filter
                           (\<lambda>(chapterIndex, ch, r). case r of Inl e \<Rightarrow> Some e | Inr v \<Rightarrow> None)
                           outcomes;
            settled = List.map_filter
                        (\<lambda>(chapterIndex, ch, r).
                           case r of Inl e \<Rightarrow> None | Inr (st, ok) \<Rightarrow> Some (chapterIndex, ch, st, ok))
                        outcomes;
            pushed = map (\<lambda>(chapterIndex, ch, st, ok).
                            (chunkIndex * concurrencyLimit + chapterIndex, ch))
                         (filter (\<lambda>(chapterIndex, ch, st, ok). ok) settled)
        in case rejections of
             e # es \<Rightarrow>
               let candidates = in_flight m0 @ pushed in
               Inl (e, m0\<lparr>processed := processed m0
                                @ filter (\<lambda>item. lands env (fst item) \<noteq> NotYet) candidates,
                            in_flight := filter (\<lambda>item. lands env (fst item) = NotYet) candidates\<rparr>)
           | [] \<Rightarrow>
               let arrived = filter (\<lambda>item. lands env (fst item) = BeforeRewrite) (in_flight m0);
                   during = filter (\<lambda>item. lands env (fst item) = DuringWrite) (in_flight m0);
                   later = filter (\<lambda>item. lands env (fst item) = NotYet) (in_flight m0);
                   m1 = m0\<lparr>results := results m0
                                 @ map (\<lambda>(chapterIndex, ch, st, ok). (ch, st)) settled,
                           processed := processed m0 @ arrived @ pushed\<rparr>
               in if processed m1 \<noteq> [] then
                    let sorted = sort_key (\<lambda>item. - int (fst item)) (processed m1);
                        spliced = foldl (\<lambda>cs item. splice1 (fst item) cs) (chapters m1) sorted
                    in if write_ok env
                       then Inr (m1\<lparr>chapters := spliced, file_chapters := spliced,
                                    processed := [], in_flight := later\<rparr>)
                       else Inr (m1\<lparr>chapters := spliced, processed := sorted @ during,
                                    in_flight := later\<rparr>)
                  else Inr (m1\<lparr>processed := during, in_flight := later\<rparr>))"

text \<open>The \<open>catch (chunkError)\<close>: rethrow an abort, otherwise go on with the next chunk.\<close>

definition rethrown :: "js_error \<Rightarrow> bool" where
  "rethrown e = (err_name e = ''AbortError'' \<or> err_message e = ''Operation aborted'')"

fun run_chunks ::
  "(nat \<Rightarrow> chunk_env) \<Rightarrow> nat \<Rightarrow> manifest_chapter list list \<Rightarrow> manifest
     \<Rightarrow> js_error \<times> manifest + manifest" where
  "run_chunks envs chunkIndex [] m = Inr m"
| "run_chunks envs chunkIndex (chunk # rest) m =
     (case process_chunk (envs chunkIndex) chunkIndex chunk m of
        Inl (e, m') \<Rightarrow>
          if rethrown e then Inl (e, m') else run_chunks envs (Suc chunkIndex) rest m'
      | Inr m' \<Rightarrow> run_chunks envs (Suc chunkIndex) rest m')"

function chunks_from :: "manifest_chapter list \<Rightarrow> nat \<Rightarrow> manifest_chapter list list" where
  "chunks_from chs i =
     (if i < length chs
      then take concurrencyLimit (drop i chs) # chunks_from chs (i + concurrencyLimit)
      else [])"
  by pat_completeness auto
termination
  by (relation "measure (\<lambda>(chs, i). length chs - i)") (auto simp: concurrencyLimit_def)

declare chunks_from.simps [simp del]

text \<open>
  \<open>results\<close> and \<open>processed\<close> are fresh arrays in every call; a push that is still in
  flight when a call returns goes to an array nobody reads any more.
\<close>

definition processChapters ::
  "(nat \<Rightarrow> chunk_env) \<Rightarrow> manifest_chapter list \<Rightarrow> manifest \<Rightarrow> js_error \<times> manifest + manifest" where
  "processChapters envs chs m =
     run_chunks envs 0 (chunks_from chs 0) (m\<lparr>results := [], processed := [], in_flight := []\<rparr>)"




definition load_manifest :: "manifest_chapter list \<Rightarrow> manifest" where
  "load_manifest chs =
     \<lparr>chapters = chs, file_chapters = chs, processed = [], in_flight = [], results = [],
      resets = 0, pauses = 0\<rparr>"

text \<open>
  What C5 asks of a wave: the entries of the chunk whose status is \<open>ok\<close> or
  \<open>ok (retry)\<close>, and the pre-wave list without them, order kept.
\<close>

definition wave_ok :: "chunk_env \<Rightarrow> manifest_chapter list \<Rightarrow> manifest_chapter list" where
  "wave_ok env chunk =
     map snd (filter (\<lambda>(chapterIndex, ch).
                        case process_chapter (first_fetch env chapterIndex) ch of
                          Inl e \<Rightarrow> False
                        | Inr (st, ok) \<Rightarrow> st \<in> {Ok, OkRetry})
                     (enumerate 0 chunk))"

definition without :: "manifest_chapter list \<Rightarrow> manifest_chapter list \<Rightarrow> manifest_chapter list" where
  "without pre removed = filter (\<lambda>ch. ch \<notin> set removed) pre"




section \<open>Single-image rehost: \<open>/get\<close>\<close>

text \<open>
  The table \<open>thumbnails\<close> is keyed by \<open>filename\<close>. \<open>new URL(imageUrl).pathname\<close> is a
  parameter \<open>pathname_of\<close> (\<open>None\<close> when the constructor throws); \<open>basename\<close> is
  \<open>path.basename\<close> on POSIX paths: trailing slashes are dropped and what follows the last
  remaining slash is returned. The effects of a request are recorded as events;
  \<open>page_load\<close> is the two navigations and the read of the body (\<open>None\<close> when one of
  them throws), \<open>upload_result\<close> the URL returned by \<open>uploadToR2\<close> (\<open>None\<close> when it
  throws), and \<open>getBrowser\<close> is taken to return.
\<close>

record thumbnail_row =
  source_url :: string
  cdn_url :: string

type_synonym thumbnails_table = "string \<rightharpoonup> thumbnail_row"

definition basename :: "string \<Rightarrow> string" where
  "basename p =
     rev (takeWhile (\<lambda>c. c \<noteq> CHR ''/'') (dropWhile (\<lambda>c. c = CHR ''/'') (rev p)))"

datatype get_event =
    SelectThumbnail string
  | GetBrowser
  | Goto string
  | UploadToR2 string
  | UpsertThumbnail string
  | ReleaseBrowser

datatype get_response =
    CdnUrl string
  | GetError nat string

record get_env =
  select_ok :: bool
  page_load :: "(string \<times> buffer) option"
  upload_result :: "string option"
  upsert_ok :: bool

definition upsert_thumbnail :: "thumbnails_table \<Rightarrow> string \<Rightarrow> string \<Rightarrow> string \<Rightarrow> thumbnails_table" where
  "upsert_thumbnail tbl fileName imageUrl cdnUrl =
     (case tbl fileName of
        None \<Rightarrow> tbl(fileName \<mapsto> \<lparr>source_url = imageUrl, cdn_url = cdnUrl\<rparr>)
      | Some row \<Rightarrow> tbl(fileName \<mapsto> row\<lparr>cdn_url := cdnUrl\<rparr>))"

definition get_image ::
  "(string \<Rightarrow> string option) \<Rightarrow> get_env \<Rightarrow> string option \<Rightarrow> thumbnails_table
     \<Rightarrow> get_response \<times> thumbnails_table \<times> get_event list" where
  "get_image pathname_of env imageUrl tbl =
     (case imageUrl of
        None \<Rightarrow> (GetError 400 ''Image URL is required'', tbl, [])
      | Some u \<Rightarrow>
          if u = [] then (GetError 400 ''Image URL is required'', tbl, [])
          else
            case pathname_of u of
              None \<Rightarrow> (GetError 500 ''Gagal memproses gambar'', tbl, [])
            | Some pathname \<Rightarrow>
                let fileName = basename pathname;
                    uploadPath = ''IMAGES/'' @ fileName
                in if \<not> select_ok env
                   then (GetError 500 ''Gagal memproses gambar'', tbl, [SelectThumbnail fileName])
                   else
                     case tbl fileName of
                       Some existing \<Rightarrow> (CdnUrl (cdn_url existing), tbl, [SelectThumbnail fileName])
                     | None \<Rightarrow>
                         (case page_load env of
                            None \<Rightarrow>
                              (GetError 500 ''Gagal memproses gambar'', tbl,
                               [SelectThumbnail fileName, GetBrowser, Goto u, ReleaseBrowser])
                          | Some (finalUrl, imageBuffer) \<Rightarrow>
                              (case upload_result env of
                                 None \<Rightarrow>
                                   (GetError 500 ''Gagal memproses gambar'', tbl,
                                    [SelectThumbnail fileName, GetBrowser, Goto u, Goto finalUrl,
                                     UploadToR2 uploadPath, ReleaseBrowser])
                               | Some cdnUrl \<Rightarrow>
                                   if \<not> upsert_ok env
                                   then (GetError 500 ''Gagal memproses gambar'', tbl,
                                         [SelectThumbnail fileName, GetBrowser, Goto u,
                                          Goto finalUrl, UploadToR2 uploadPath,
                                          UpsertThumbnail fileName, ReleaseBrowser])
                                   else (CdnUrl cdnUrl,
                                         upsert_thumbnail tbl fileName u cdnUrl,
                                         [SelectThumbnail fileName, GetBrowser, Goto u,
                                          Goto finalUrl, UploadToR2 uploadPath,
                                          UpsertThumbnail fileName, ReleaseBrowser]))))"

text \<open>
  Shorthands for concrete runs: a chapter with the given slug, and an outside world in
  which the deadline has not fired, the request for the chapter at position \<open>i\<close> answers
  with \<open>success\<close> equal to \<open>f i\<close>, and the file can be written.
\<close>

definition entry :: "string \<Rightarrow> manifest_chapter" where
  "entry s = \<lparr>chapter_slug = Some s, chapter_title = Some s\<rparr>"

definition answers :: "(nat \<Rightarrow> bool) \<Rightarrow> chunk_env" where
  "answers f =
     \<lparr>aborted_now = False, first_fetch = (\<lambda>i. Resolved (f i)), write_ok = True,
      lands = (\<lambda>i. NotYet)\<rparr>"

section \<open>Properties of the fetch with retry\<close>

lemma fetchImageBuffer_timeouts_cleared:
  "pending_timeouts [] (snd (fetchImageBuffer net u r 0)) = []"
  by (cases "try_fetch (net 0)"; cases "try_fetch (net 1)"; cases "try_fetch (net 2)";
      cases "try_fetch (net 3)")
     (simp_all add: fetchImageBuffer.simps numeral_3_eq_3 numeral_2_eq_2)

text \<open>
  C6. When every attempt fails (the fetch rejects, the status is not 2xx, or reading the
  body rejects), \<open>fetchImageBuffer\<close> started at \<open>retryCount = 0\<close> issues exactly four
  fetches, sleeps 1000, 2000 and 4000 ms before the second, third and fourth, returns
  the error of the fourth attempt, and leaves no timeout armed: each of the four timers
  it creates is cleared in the \<open>catch\<close> and again in the \<open>finally\<close>.
\<close>

theorem fetchImageBuffer_permanent_failure:
  assumes "\<forall>k\<le>3. isl (try_fetch (net k))"
  shows "snd (fetchImageBuffer net u r 0) =
           [CreateTimeout 0 20000, Fetch u r, ClearTimeout 0, Sleep 1000,
            CreateTimeout 1 20000, Fetch u r, ClearTimeout 0, ClearTimeout 1, Sleep 2000,
            CreateTimeout 2 20000, Fetch u r, ClearTimeout 1, ClearTimeout 2, Sleep 4000,
            CreateTimeout 3 20000, Fetch u r, ClearTimeout 2, ClearTimeout 3, ClearTimeout 3]
       \<and> fst (fetchImageBuffer net u r 0) = Inl (projl (try_fetch (net 3)))
       \<and> fetches (snd (fetchImageBuffer net u r 0)) = 4
       \<and> sleeps (snd (fetchImageBuffer net u r 0)) = [1000, 2000, 4000]
       \<and> pending_timeouts [] (snd (fetchImageBuffer net u r 0)) = []"
proof -
  from assms have "isl (try_fetch (net 0))" "isl (try_fetch (net 1))"
    "isl (try_fetch (net 2))" "isl (try_fetch (net 3))" by simp_all
  then obtain e0 e1 e2 e3 where e: "try_fetch (net 0) = Inl e0" "try_fetch (net 1) = Inl e1"
    "try_fetch (net 2) = Inl e2" "try_fetch (net 3) = Inl e3"
    by (auto simp: isl_def)
  have 3: "fetchImageBuffer net u r 3 =
     (Inl e3, [CreateTimeout 3 20000, Fetch u r, ClearTimeout 3, ClearTimeout 3])"
    using e(4) by (simp add: fetchImageBuffer.simps)
  have 2: "fetchImageBuffer net u r 2 =
     (Inl e3, [CreateTimeout 2 20000, Fetch u r, ClearTimeout 2, Sleep 4000,
               CreateTimeout 3 20000, Fetch u r, ClearTimeout 2, ClearTimeout 3,
               ClearTimeout 3])"
    using e(3) 3 by (subst fetchImageBuffer.simps) (simp add: numeral_3_eq_3)
  have 1: "fetchImageBuffer net u r 1 =
     (Inl e3, [CreateTimeout 1 20000, Fetch u r, ClearTimeout 1, Sleep 2000,
               CreateTimeout 2 20000, Fetch u r, ClearTimeout 1, ClearTimeout 2, Sleep 4000,
               CreateTimeout 3 20000, Fetch u r, ClearTimeout 2, ClearTimeout 3,
               ClearTimeout 3])"
    using e(2) 2 by (subst fetchImageBuffer.simps) (simp add: numeral_2_eq_2)
  have 0: "fetchImageBuffer net u r 0 =
     (Inl e3, [CreateTimeout 0 20000, Fetch u r, ClearTimeout 0, Sleep 1000,
               CreateTimeout 1 20000, Fetch u r, ClearTimeout 0, ClearTimeout 1, Sleep 2000,
               CreateTimeout 2 20000, Fetch u r, ClearTimeout 1, ClearTimeout 2, Sleep 4000,
               CreateTimeout 3 20000, Fetch u r, ClearTimeout 2, ClearTimeout 3,
               ClearTimeout 3])"
    using e(1) 1 by (subst fetchImageBuffer.simps) simp
  show ?thesis unfolding 0 using e(4) by simp
qed

theorem fetchImageBuffer_permanent_failure_witness:
  "isl (try_fetch (Responds 503 (Inr [])))
   \<and> fst (fetchImageBuffer (\<lambda>k. Responds 503 (Inr [])) ''http://img.example/1.jpg''
            ''https://doujindesu.tv/'' 0) = Inl (FailedToFetchImage 503)
   \<and> fetches (snd (fetchImageBuffer (\<lambda>k. Responds 503 (Inr [])) ''http://img.example/1.jpg''
            ''https://doujindesu.tv/'' 0)) = 4
   \<and> sleeps (snd (fetchImageBuffer (\<lambda>k. Responds 503 (Inr [])) ''http://img.example/1.jpg''
            ''https://doujindesu.tv/'' 0)) = [1000, 2000, 4000]"
  using fetchImageBuffer_permanent_failure
          [of "\<lambda>k. Responds 503 (Inr [])" "''http://img.example/1.jpg''" "''https://doujindesu.tv/''"]
  by (simp add: response_ok_def)

section \<open>Helper lemmas for comic ingestion\<close>

lemma upload_image_0:
  "upload_image att 0 =
     (case att 0 of Some u \<Rightarrow> Str u | None \<Rightarrow>
        (case att 1 of Some u \<Rightarrow> Str u | None \<Rightarrow>
           (case att 2 of Some u \<Rightarrow> Str u | None \<Rightarrow> Null)))"
proof -
  have 2: "upload_image att (Suc (Suc 0)) = (case att 2 of Some u \<Rightarrow> Str u | None \<Rightarrow> Null)"
    by (subst upload_image.simps) (simp split: option.splits add: numeral_2_eq_2)
  have 1: "upload_image att (Suc 0) =
             (case att 1 of Some u \<Rightarrow> Str u | None \<Rightarrow> upload_image att (Suc (Suc 0)))"
    by (subst upload_image.simps) (simp split: option.splits)
  have 0: "upload_image att 0 = (case att 0 of Some u \<Rightarrow> Str u | None \<Rightarrow> upload_image att (Suc 0))"
    by (subst upload_image.simps) (simp split: option.splits)
  show ?thesis unfolding 0 1 2 ..
qed

lemma upload_image_not_undefined: "upload_image att 0 \<noteq> Undefined"
  by (simp add: upload_image_0 split: option.splits)

lemma upload_batches_eq:
  "upload_batches att urls i acc =
     acc @ filter (\<lambda>u. u \<noteq> Null) (map (\<lambda>k. upload_image (att k) 0) [i..<length urls])"
proof (induction att urls i acc rule: upload_batches.induct)
  case (1 att urls i acc)
  show ?case
  proof (cases "i < length urls")
    case False
    then show ?thesis by (subst upload_batches.simps) simp
  next
    case True
    define m where "m = min (length urls - i) 3"
    have len: "length (take 3 (drop i urls)) = m" by (simp add: m_def)
    have shift: "map (\<lambda>b. upload_image (att (i + b)) 0) [0..<m]
                 = map (\<lambda>k. upload_image (att k) 0) [i..<i + m]"
    proof -
      have "[i..<i + m] = map (\<lambda>b. b + i) [0..<m]" by (simp add: map_add_upt add.commute)
      then show ?thesis by (simp add: comp_def add.commute)
    qed
    have split: "[i..<length urls] = [i..<i + m] @ [i + m..<length urls]"
      using True upt_add_eq_append [of i "i + m" "length urls - (i + m)"]
      by (simp add: m_def min_def split: if_splits)
    have rest: "[i + 3..<length urls] = [i + m..<length urls]"
      using True by (auto simp: m_def min_def)
    have "upload_batches att urls i acc =
          upload_batches att urls (i + 3)
            (acc @ filter (\<lambda>u. u \<noteq> Null) (map (\<lambda>b. upload_image (att (i + b)) 0) [0..<m]))"
      using True by (subst upload_batches.simps) (simp add: m_def Let_def)
    also have "\<dots> = (acc @ filter (\<lambda>u. u \<noteq> Null) (map (\<lambda>b. upload_image (att (i + b)) 0) [0..<m]))
         @ filter (\<lambda>u. u \<noteq> Null) (map (\<lambda>k. upload_image (att k) 0) [i + 3..<length urls])"
      using "1.IH" [OF True refl refl] by (simp add: m_def)
    finally show ?thesis
      by (simp add: shift rest) (simp add: split)
  qed
qed

lemma upload_batches_successful:
  "upload_batches att urls 0 [] = successful_uploads att (length urls)"
  by (simp add: upload_batches_eq successful_uploads_def)

lemma successful_uploads_valid:
  "filter (\<lambda>u. u \<noteq> Null \<and> u \<noteq> Undefined) (successful_uploads att n) = successful_uploads att n"
  unfolding successful_uploads_def
  by (simp only: filter_id_conv) (auto simp: upload_image_not_undefined)

lemma successful_uploads_length: "length (successful_uploads att n) \<le> n"
  unfolding successful_uploads_def
  by (metis length_filter_le length_map length_upt diff_zero)

lemma save_valid:
  assumes "filter (\<lambda>u. u \<noteq> Null \<and> u \<noteq> Undefined) us \<noteq> []"
  shows "saveComicToDB w db slug fu (Some us) 0 =
     (if w 0 \<or> w 1 \<or> w 2
      then (True, upsert_comic db slug fu
                    (join_comma (map js_string (filter (\<lambda>u. u \<noteq> Null \<and> u \<noteq> Undefined) us)))
                    (length (filter (\<lambda>u. u \<noteq> Null \<and> u \<noteq> Undefined) us)))
      else (False, db))"
proof -
  define written where "written = (True, upsert_comic db slug fu
                    (join_comma (map js_string (filter (\<lambda>u. u \<noteq> Null \<and> u \<noteq> Undefined) us)))
                    (length (filter (\<lambda>u. u \<noteq> Null \<and> u \<noteq> Undefined) us)))"
  from assms have ne: "us \<noteq> []" by auto
  have 2: "saveComicToDB w db slug fu (Some us) (Suc (Suc 0)) =
             (if w 2 then written else (False, db))"
    using assms ne
    by (subst saveComicToDB.simps) (simp add: Let_def written_def numeral_2_eq_2)
  have 1: "saveComicToDB w db slug fu (Some us) (Suc 0) =
             (if w 1 then written else saveComicToDB w db slug fu (Some us) (Suc (Suc 0)))"
    using assms ne by (subst saveComicToDB.simps) (simp add: Let_def written_def)
  have 0: "saveComicToDB w db slug fu (Some us) 0 =
             (if w 0 then written else saveComicToDB w db slug fu (Some us) (Suc 0))"
    using assms ne by (subst saveComicToDB.simps) (simp add: Let_def written_def)
  show ?thesis unfolding 0 1 2 written_def [symmetric] by simp
qed

lemma save_nothing_valid:
  "filter (\<lambda>u. u \<noteq> Null \<and> u \<noteq> Undefined) us = [] \<Longrightarrow>
   saveComicToDB w db slug fu (Some us) k = (False, db)"
  by (subst saveComicToDB.simps) (simp add: Let_def)

lemma save_absent: "saveComicToDB w db slug fu None k = (False, db)"
  by (subst saveComicToDB.simps) simp

lemma get_comic_fresh:
  assumes "scrapes_fresh e slug st clean srcs"
  shows "get_comic e slug st =
     (let imageUrls = filter absolute_http srcs;
          ups = successful_uploads (upload_attempt e) (length imageUrls);
          resp = \<lparr>success = True, images = ups, cached = False, source = ''freshly scraped'',
                  warning = (if length ups \<noteq> length imageUrls
                             then Some ''Beberapa gambar gagal diupload'' else None)\<rparr>
      in (Json 200 resp,
          \<lparr>comics = (if ups \<noteq> []
                     then snd (saveComicToDB (db_write_ok e) (comics st) clean
                                 (urlBase @ clean @ ''/'') (Some ups) 0)
                     else comics st),
           cache = cache_set (cache st) (now e) (''comic-'' @ clean) resp\<rparr>))"
  using assms
  by (simp add: scrapes_fresh_def get_comic_def Let_def upload_batches_successful)

lemma split_comma_nonempty: "split_comma s \<noteq> []"
  by (cases s) (auto split: list.splits)

lemma split_comma_plain: "CHR '','' \<notin> set u \<Longrightarrow> split_comma u = [u]"
  by (induction u) auto

lemma split_comma_append:
  "CHR '','' \<notin> set u \<Longrightarrow> split_comma (u @ CHR '','' # rest) = u # split_comma rest"
  by (induction u) auto

lemma split_join_comma:
  "xs \<noteq> [] \<Longrightarrow> \<forall>u\<in>set xs. CHR '','' \<notin> set u \<Longrightarrow> split_comma (join_comma xs) = xs"
  by (induction xs rule: join_comma.induct) (simp_all add: split_comma_plain split_comma_append)

lemma getComicFromDB_accepted:
  assumes "\<exists>k\<le>2. rd k"
  shows "getComicFromDB rd db slug 0 =
     (case db slug of
        Some row \<Rightarrow> if image_url row \<noteq> [] then Some (split_comma (image_url row)) else None
      | None \<Rightarrow> None)"
proof -
  define val where "val = (case db slug of
        Some row \<Rightarrow> if image_url row \<noteq> [] then Some (split_comma (image_url row)) else None
      | None \<Rightarrow> None)"
  have 2: "getComicFromDB rd db slug (Suc (Suc 0)) = (if rd 2 then val else None)"
    by (subst getComicFromDB.simps) (simp add: val_def numeral_2_eq_2)
  have 1: "getComicFromDB rd db slug (Suc 0) =
             (if rd 1 then val else getComicFromDB rd db slug (Suc (Suc 0)))"
    by (subst getComicFromDB.simps) (simp add: val_def)
  have 0: "getComicFromDB rd db slug 0 =
             (if rd 0 then val else getComicFromDB rd db slug (Suc 0))"
    by (subst getComicFromDB.simps) (simp add: val_def)
  from assms have "rd 0 \<or> rd 1 \<or> rd 2"
    by (auto simp: le_Suc_eq numeral_2_eq_2)
  then show ?thesis unfolding 0 1 2 val_def [symmetric] by auto
qed

lemma write_accepted: "(\<exists>k\<le>2. (w::nat \<Rightarrow> bool) k) = (w 0 \<or> w 1 \<or> w 2)"
  by (auto simp: le_Suc_eq numeral_2_eq_2)

lemma successful_uploads_Str:
  "u \<in> set (successful_uploads att n) \<Longrightarrow> \<exists>s. u = Str s"
  by (auto simp: successful_uploads_def upload_image_0 split: option.splits)

lemma successful_uploads_strings:
  "map Str (map js_string (successful_uploads att n)) = successful_uploads att n"
  by (rule map_idI [THEN trans [OF map_map]]) (auto dest: successful_uploads_Str)

lemma join_comma_empty: "(join_comma xs = []) = (xs = [] \<or> xs = [[]])"
  by (induction xs rule: join_comma.induct) simp_all

section \<open>Properties of comic ingestion\<close>

text \<open>
  C1 as stated fails when the database rejects the write. Two image URLs are extracted
  and the second upload succeeds (\<open>M = 1 < N = 2\<close>); all three attempts of
  \<open>saveComicToDB\<close> are rejected, so it returns \<open>false\<close>, which the handler ignores: the
  answer is \<open>success: true\<close> with the warning set, and no record is stored for the slug.
\<close>

theorem get_comic_write_rejected_counterexample:
  "scrapes_fresh
     \<lparr>now = 0, db_read_ok = (\<lambda>_. True),
      scrape = Extracted [''http://s/1.jpg'', ''http://s/2.jpg''],
      upload_attempt = (\<lambda>i r. if i = 0 then None else Some ''https://cdn/foo_2.jpg''),
      db_write_ok = (\<lambda>_. False), db_recheck_ok = (\<lambda>_. True)\<rparr>
     (Some ''foo'') \<lparr>comics = Map.empty, cache = Map.empty\<rparr> ''foo''
     [''http://s/1.jpg'', ''http://s/2.jpg'']
   \<and> successful_uploads (\<lambda>i r. if i = 0 then None else Some ''https://cdn/foo_2.jpg'')
         (length (filter absolute_http [''http://s/1.jpg'', ''http://s/2.jpg'']))
       = [Str ''https://cdn/foo_2.jpg'']
   \<and> fst (get_comic
        \<lparr>now = 0, db_read_ok = (\<lambda>_. True),
         scrape = Extracted [''http://s/1.jpg'', ''http://s/2.jpg''],
         upload_attempt = (\<lambda>i r. if i = 0 then None else Some ''https://cdn/foo_2.jpg''),
         db_write_ok = (\<lambda>_. False), db_recheck_ok = (\<lambda>_. True)\<rparr>
        (Some ''foo'') \<lparr>comics = Map.empty, cache = Map.empty\<rparr>)
       = Json 200 \<lparr>success = True, images = [Str ''https://cdn/foo_2.jpg''], cached = False,
                    source = ''freshly scraped'',
                    warning = Some ''Beberapa gambar gagal diupload''\<rparr>
   \<and> comics (snd (get_comic
        \<lparr>now = 0, db_read_ok = (\<lambda>_. True),
         scrape = Extracted [''http://s/1.jpg'', ''http://s/2.jpg''],
         upload_attempt = (\<lambda>i r. if i = 0 then None else Some ''https://cdn/foo_2.jpg''),
         db_write_ok = (\<lambda>_. False), db_recheck_ok = (\<lambda>_. True)\<rparr>
        (Some ''foo'') \<lparr>comics = Map.empty, cache = Map.empty\<rparr>)) ''foo''
       = None"
proof -
  let ?e = "\<lparr>now = 0, db_read_ok = (\<lambda>_. True),
      scrape = Extracted [''http://s/1.jpg'', ''http://s/2.jpg''],
      upload_attempt = (\<lambda>i r. if i = 0 then None else Some ''https://cdn/foo_2.jpg''),
      db_write_ok = (\<lambda>_. False), db_recheck_ok = (\<lambda>_. True)\<rparr>"
  let ?st = "\<lparr>comics = Map.empty, cache = Map.empty\<rparr>"
  have fresh: "scrapes_fresh ?e (Some ''foo'') ?st ''foo'' [''http://s/1.jpg'', ''http://s/2.jpg'']"
    by (simp add: scrapes_fresh_def cleanSlug_def getComicFromDB.simps cache_get_def)
  have ups: "successful_uploads (\<lambda>i r. if i = 0 then None else Some ''https://cdn/foo_2.jpg'')
         (length (filter absolute_http [''http://s/1.jpg'', ''http://s/2.jpg'']))
       = [Str ''https://cdn/foo_2.jpg'']"
    by (simp add: successful_uploads_def upload_image_0 numeral_2_eq_2 absolute_http_def)
  have stored: "comics (snd (get_comic ?e (Some ''foo'') ?st)) ''foo'' = None"
    and answer: "fst (get_comic ?e (Some ''foo'') ?st)
       = Json 200 \<lparr>success = True, images = [Str ''https://cdn/foo_2.jpg''], cached = False,
                    source = ''freshly scraped'',
                    warning = Some ''Beberapa gambar gagal diupload''\<rparr>"
    by (simp_all add: get_comic_fresh [OF fresh] Let_def save_valid absolute_http_def
                      successful_uploads_def upload_image_0 numeral_2_eq_2)
  from fresh ups stored answer show ?thesis by blast
qed

text \<open>
  C1, amended. A \<open>/get-comic\<close> request that scrapes fresh, extracts \<open>N\<close> absolute image
  URLs and uploads \<open>M \<ge> 1\<close> of them answers 200 with \<open>success: true\<close> and the \<open>M\<close>
  uploaded URLs; the warning is set when \<open>M < N\<close> and absent when \<open>M = N\<close>. When the
  database accepts one of the three attempts of \<open>saveComicToDB\<close>, the record stored for
  the slug holds exactly the \<open>M\<close> uploaded URLs, joined by commas in upload order (so
  that splitting the column at the commas gives back those \<open>M\<close> URLs when none of them
  contains a comma), and \<open>total_images = M\<close>; when all three attempts are rejected the
  table is left as it was.
\<close>

theorem get_comic_partial_upload:
  assumes "scrapes_fresh e slug st clean srcs"
    and "N = length (filter absolute_http srcs)"
    and "ups = successful_uploads (upload_attempt e) N"
    and "M = length ups"
    and "1 \<le> M"
  shows "\<exists>body st'. get_comic e slug st = (Json 200 body, st')
           \<and> success body \<and> images body = ups \<and> M \<le> N
           \<and> (M < N \<longrightarrow> warning body = Some ''Beberapa gambar gagal diupload'')
           \<and> (M = N \<longrightarrow> warning body = None)
           \<and> (if \<exists>k\<le>2. db_write_ok e k
               then \<exists>row. comics st' clean = Some row
                      \<and> image_url row = join_comma (map js_string ups)
                      \<and> total_images row = M
                      \<and> ((\<forall>u\<in>set ups. CHR '','' \<notin> set (js_string u)) \<longrightarrow>
                           map Str (split_comma (image_url row)) = ups)
               else comics st' = comics st)"
proof -
  have ne: "ups \<noteq> []" using assms(4,5) by auto
  have valid: "filter (\<lambda>u. u \<noteq> Null \<and> u \<noteq> Undefined) ups = ups"
    unfolding assms(3) by (rule successful_uploads_valid)
  have le: "M \<le> N" unfolding assms(3,4) by (rule successful_uploads_length)
  have strs: "map Str (map js_string ups) = ups"
    unfolding assms(3) by (rule successful_uploads_strings)
  have round: "map Str (split_comma (join_comma (map js_string ups))) = ups"
    if "\<forall>u\<in>set ups. CHR '','' \<notin> set (js_string u)"
  proof -
    from that ne have "split_comma (join_comma (map js_string ups)) = map js_string ups"
      by (intro split_join_comma) auto
    with strs show ?thesis by simp
  qed
  have save: "saveComicToDB (db_write_ok e) (comics st) clean (urlBase @ clean @ ''/'') (Some ups) 0
      = (if db_write_ok e 0 \<or> db_write_ok e 1 \<or> db_write_ok e 2
         then (True, upsert_comic (comics st) clean (urlBase @ clean @ ''/'')
                       (join_comma (map js_string ups)) M)
         else (False, comics st))"
    using save_valid [of ups "db_write_ok e" "comics st" clean "urlBase @ clean @ ''/''"] ne
    by (simp add: valid assms(4))
  show ?thesis
  proof (cases "db_write_ok e 0 \<or> db_write_ok e 1 \<or> db_write_ok e 2")
    case True
    with le ne round show ?thesis
      by (simp add: get_comic_fresh [OF assms(1)] Let_def assms(2-4) [symmetric] save
                    write_accepted upsert_comic_def split: option.splits)
  next
    case False
    with le ne show ?thesis
      by (simp add: get_comic_fresh [OF assms(1)] Let_def assms(2-4) [symmetric] save
                    write_accepted)
  qed
qed

theorem get_comic_partial_upload_witness:
  "scrapes_fresh
     \<lparr>now = 0, db_read_ok = (\<lambda>_. True),
      scrape = Extracted [''http://s/1.jpg'', ''http://s/2.jpg''],
      upload_attempt = (\<lambda>i r. if i = 0 then None else Some ''https://cdn/foo_2.jpg''),
      db_write_ok = (\<lambda>k. k = 0), db_recheck_ok = (\<lambda>_. True)\<rparr>
     (Some ''foo'') \<lparr>comics = Map.empty, cache = Map.empty\<rparr> ''foo''
     [''http://s/1.jpg'', ''http://s/2.jpg'']
   \<and> (\<exists>body st'. get_comic
        \<lparr>now = 0, db_read_ok = (\<lambda>_. True),
         scrape = Extracted [''http://s/1.jpg'', ''http://s/2.jpg''],
         upload_attempt = (\<lambda>i r. if i = 0 then None else Some ''https://cdn/foo_2.jpg''),
         db_write_ok = (\<lambda>k. k = 0), db_recheck_ok = (\<lambda>_. True)\<rparr>
        (Some ''foo'') \<lparr>comics = Map.empty, cache = Map.empty\<rparr> = (Json 200 body, st')
      \<and> success body \<and> images body = [Str ''https://cdn/foo_2.jpg'']
      \<and> warning body = Some ''Beberapa gambar gagal diupload''
      \<and> (\<exists>row. comics st' ''foo'' = Some row \<and> image_url row = ''https://cdn/foo_2.jpg''
                \<and> total_images row = 1
                \<and> map Str (split_comma (image_url row)) = [Str ''https://cdn/foo_2.jpg'']))"
proof -
  let ?e = "\<lparr>now = 0, db_read_ok = (\<lambda>_. True),
      scrape = Extracted [''http://s/1.jpg'', ''http://s/2.jpg''],
      upload_attempt = (\<lambda>i r. if i = 0 then None else Some ''https://cdn/foo_2.jpg''),
      db_write_ok = (\<lambda>k. k = 0), db_recheck_ok = (\<lambda>_. True)\<rparr>"
  let ?st = "\<lparr>comics = Map.empty, cache = Map.empty\<rparr>"
  have fresh: "scrapes_fresh ?e (Some ''foo'') ?st ''foo'' [''http://s/1.jpg'', ''http://s/2.jpg'']"
    by (simp add: scrapes_fresh_def cleanSlug_def getComicFromDB.simps cache_get_def)
  have n: "length (filter absolute_http [''http://s/1.jpg'', ''http://s/2.jpg'']) = 2"
    by (simp add: absolute_http_def)
  have ups: "successful_uploads (upload_attempt ?e) 2 = [Str ''https://cdn/foo_2.jpg'']"
    by (simp add: successful_uploads_def upload_image_0 numeral_2_eq_2)
  show ?thesis
    using get_comic_partial_upload [OF fresh n [symmetric] ups [symmetric], of 1] fresh
    by simp
qed

text \<open>
  C3. \<open>saveComicToDB\<close> called with an empty list, with a list holding only
  \<open>null\<close>/\<open>undefined\<close> entries, or without a list, returns \<open>false\<close> and leaves the
  table as it was, at any retry count; and a fresh \<open>/get-comic\<close> scrape in which no image
  is uploaded answers with \<open>success: true\<close> and an empty image list while the table is
  unchanged.
\<close>

theorem saveComicToDB_never_writes_empty:
  "((\<forall>u\<in>set us. u = Null \<or> u = Undefined) \<longrightarrow>
      saveComicToDB w db slug0 fu (Some us) k = (False, db))
   \<and> saveComicToDB w db slug0 fu None k = (False, db)
   \<and> (scrapes_fresh e slug st clean srcs
        \<and> successful_uploads (upload_attempt e) (length (filter absolute_http srcs)) = [] \<longrightarrow>
        (\<exists>body st'. get_comic e slug st = (Json 200 body, st') \<and> success body
            \<and> images body = [] \<and> comics st' = comics st))"
proof -
  have "filter (\<lambda>u. u \<noteq> Null \<and> u \<noteq> Undefined) us = []" if "\<forall>u\<in>set us. u = Null \<or> u = Undefined"
    using that by (auto simp: filter_empty_conv)
  then show ?thesis
    by (auto simp: save_nothing_valid save_absent get_comic_fresh Let_def)
qed

theorem saveComicToDB_never_writes_empty_witness:
  "saveComicToDB (\<lambda>_. True) Map.empty ''foo'' ''https://doujindesu.tv/foo/''
        (Some [Null, Undefined]) 0 = (False, Map.empty)
   \<and> scrapes_fresh
        \<lparr>now = 0, db_read_ok = (\<lambda>_. True), scrape = Extracted [''http://s/1.jpg''],
         upload_attempt = (\<lambda>i r. None), db_write_ok = (\<lambda>_. True),
         db_recheck_ok = (\<lambda>_. True)\<rparr>
        (Some ''foo'') \<lparr>comics = Map.empty, cache = Map.empty\<rparr> ''foo'' [''http://s/1.jpg'']
   \<and> successful_uploads (\<lambda>i r. None) (length (filter absolute_http [''http://s/1.jpg''])) = []
   \<and> (\<exists>body st'. get_comic
        \<lparr>now = 0, db_read_ok = (\<lambda>_. True), scrape = Extracted [''http://s/1.jpg''],
         upload_attempt = (\<lambda>i r. None), db_write_ok = (\<lambda>_. True),
         db_recheck_ok = (\<lambda>_. True)\<rparr>
        (Some ''foo'') \<lparr>comics = Map.empty, cache = Map.empty\<rparr> = (Json 200 body, st')
        \<and> success body \<and> images body = [] \<and> comics st' = Map.empty)"
proof -
  let ?e = "\<lparr>now = 0, db_read_ok = (\<lambda>_. True), scrape = Extracted [''http://s/1.jpg''],
         upload_attempt = (\<lambda>i r. None), db_write_ok = (\<lambda>_. True),
         db_recheck_ok = (\<lambda>_. True)\<rparr>"
  let ?st = "\<lparr>comics = Map.empty, cache = Map.empty\<rparr>"
  have fresh: "scrapes_fresh ?e (Some ''foo'') ?st ''foo'' [''http://s/1.jpg'']"
    by (simp add: scrapes_fresh_def cleanSlug_def getComicFromDB.simps cache_get_def)
  have ups: "successful_uploads (\<lambda>i r. None) (length (filter absolute_http [''http://s/1.jpg''])) = []"
    by (simp add: successful_uploads_def upload_image_0 absolute_http_def)
  show ?thesis
    using saveComicToDB_never_writes_empty
            [of "[Null, Undefined]" "\<lambda>_. True" Map.empty "''foo''" "''https://doujindesu.tv/foo/''" 0
                ?e "Some ''foo''" ?st "''foo''" "[''http://s/1.jpg'']"]
          fresh ups
    by simp
qed

text \<open>
  C2 as stated fails: the list is stored joined by commas and read back split at commas,
  so an uploaded URL that contains a comma comes back in pieces. Here the slug is
  \<open>a,b\<close>, the one upload succeeds with a URL under \<open>DOUJINSHI/a,b/\<close>, every database
  statement is accepted, and the read returns three strings instead of the one URL.
\<close>

theorem getComicFromDB_comma_counterexample:
  "scrapes_fresh
     \<lparr>now = 0, db_read_ok = (\<lambda>_. True), scrape = Extracted [''http://s/1.jpg''],
      upload_attempt = (\<lambda>i r. Some ''https://cdn/DOUJINSHI/a,b/a,b_1.jpg''),
      db_write_ok = (\<lambda>_. True), db_recheck_ok = (\<lambda>_. True)\<rparr>
     (Some ''a,b'') \<lparr>comics = Map.empty, cache = Map.empty\<rparr> ''a,b'' [''http://s/1.jpg'']
   \<and> successful_uploads (\<lambda>i r. Some ''https://cdn/DOUJINSHI/a,b/a,b_1.jpg'')
         (length (filter absolute_http [''http://s/1.jpg'']))
       = [Str ''https://cdn/DOUJINSHI/a,b/a,b_1.jpg'']
   \<and> getComicFromDB (\<lambda>_. True)
         (comics (snd (get_comic
            \<lparr>now = 0, db_read_ok = (\<lambda>_. True), scrape = Extracted [''http://s/1.jpg''],
             upload_attempt = (\<lambda>i r. Some ''https://cdn/DOUJINSHI/a,b/a,b_1.jpg''),
             db_write_ok = (\<lambda>_. True), db_recheck_ok = (\<lambda>_. True)\<rparr>
            (Some ''a,b'') \<lparr>comics = Map.empty, cache = Map.empty\<rparr>))) ''a,b'' 0
       = Some [''https://cdn/DOUJINSHI/a'', ''b/a'', ''b_1.jpg'']
   \<and> map_option (map Str)
        (getComicFromDB (\<lambda>_. True)
         (comics (snd (get_comic
            \<lparr>now = 0, db_read_ok = (\<lambda>_. True), scrape = Extracted [''http://s/1.jpg''],
             upload_attempt = (\<lambda>i r. Some ''https://cdn/DOUJINSHI/a,b/a,b_1.jpg''),
             db_write_ok = (\<lambda>_. True), db_recheck_ok = (\<lambda>_. True)\<rparr>
            (Some ''a,b'') \<lparr>comics = Map.empty, cache = Map.empty\<rparr>))) ''a,b'' 0)
       \<noteq> Some (successful_uploads (\<lambda>i r. Some ''https://cdn/DOUJINSHI/a,b/a,b_1.jpg'')
                  (length (filter absolute_http [''http://s/1.jpg''])))"
proof -
  let ?e = "\<lparr>now = 0, db_read_ok = (\<lambda>_. True), scrape = Extracted [''http://s/1.jpg''],
      upload_attempt = (\<lambda>i r. Some ''https://cdn/DOUJINSHI/a,b/a,b_1.jpg''),
      db_write_ok = (\<lambda>_. True), db_recheck_ok = (\<lambda>_. True)\<rparr>"
  let ?st = "\<lparr>comics = Map.empty, cache = Map.empty\<rparr>"
  have fresh: "scrapes_fresh ?e (Some ''a,b'') ?st ''a,b'' [''http://s/1.jpg'']"
    by (simp add: scrapes_fresh_def cleanSlug_def getComicFromDB.simps cache_get_def)
  have ups: "successful_uploads (\<lambda>i r. Some ''https://cdn/DOUJINSHI/a,b/a,b_1.jpg'')
         (length (filter absolute_http [''http://s/1.jpg'']))
       = [Str ''https://cdn/DOUJINSHI/a,b/a,b_1.jpg'']"
    by (simp add: successful_uploads_def upload_image_0 absolute_http_def)
  have db: "comics (snd (get_comic ?e (Some ''a,b'') ?st)) ''a,b''
      = Some \<lparr>url = ''https://doujindesu.tv/a,b/'',
               image_url = ''https://cdn/DOUJINSHI/a,b/a,b_1.jpg'', total_images = 1\<rparr>"
    using ups
    by (simp add: get_comic_fresh [OF fresh] Let_def save_valid upsert_comic_def urlBase_def)
  show ?thesis
    using fresh ups by (simp add: getComicFromDB.simps db)
qed

text \<open>
  C2, amended. After a fresh scrape that uploaded at least one image, where no uploaded
  URL contains a comma, the uploaded list is not the single empty string, the database
  accepts one of the three write attempts and one of the three read attempts,
  \<open>getComicFromDB\<close> returns exactly the successfully uploaded URLs in index order
  (which is batch order, then index order within a batch: \<open>upload_batches_successful\<close>).
\<close>

theorem getComicFromDB_after_ingestion:
  assumes "scrapes_fresh e slug st clean srcs"
    and "ups = successful_uploads (upload_attempt e) (length (filter absolute_http srcs))"
    and "ups \<noteq> []"
    and "\<forall>u\<in>set ups. CHR '','' \<notin> set (js_string u)"
    and "ups \<noteq> [Str []]"
    and "\<exists>k\<le>2. db_write_ok e k"
    and "\<exists>k\<le>2. query_ok k"
  shows "map_option (map Str) (getComicFromDB query_ok (comics (snd (get_comic e slug st))) clean 0)
           = Some ups"
proof -
  have valid: "filter (\<lambda>u. u \<noteq> Null \<and> u \<noteq> Undefined) ups = ups"
    unfolding assms(2) by (rule successful_uploads_valid)
  have strs: "map Str (map js_string ups) = ups"
    unfolding assms(2) by (rule successful_uploads_strings)
  have "map js_string ups \<noteq> [[]]"
  proof
    assume "map js_string ups = [[]]"
    then have "map Str (map js_string ups) = [Str []]" by simp
    with strs assms(5) show False by simp
  qed
  then have joined: "join_comma (map js_string ups) \<noteq> []"
    using assms(3) by (simp add: join_comma_empty)
  have round: "split_comma (join_comma (map js_string ups)) = map js_string ups"
    using assms(3,4) by (intro split_join_comma) auto
  have save: "snd (saveComicToDB (db_write_ok e) (comics st) clean (urlBase @ clean @ ''/'') (Some ups) 0)
      = upsert_comic (comics st) clean (urlBase @ clean @ ''/'')
          (join_comma (map js_string ups)) (length ups)"
    using save_valid [of ups "db_write_ok e" "comics st" clean "urlBase @ clean @ ''/''"]
      assms(3,6)
    by (simp add: valid write_accepted)
  have row: "\<exists>row. comics (snd (get_comic e slug st)) clean = Some row
               \<and> image_url row = join_comma (map js_string ups)"
    using assms(3)
    by (simp add: get_comic_fresh [OF assms(1)] Let_def assms(2) [symmetric] save
                  upsert_comic_def split: option.splits)
  then show ?thesis
    using joined round strs
    by (auto simp: getComicFromDB_accepted [OF assms(7)])
qed

theorem getComicFromDB_after_ingestion_witness:
  "scrapes_fresh
     \<lparr>now = 0, db_read_ok = (\<lambda>_. True),
      scrape = Extracted [''http://s/1.jpg'', ''http://s/2.jpg''],
      upload_attempt = (\<lambda>i r. if i = 0 then Some ''https://cdn/foo_1.jpg''
                               else Some ''https://cdn/foo_2.jpg''),
      db_write_ok = (\<lambda>k. k = 0), db_recheck_ok = (\<lambda>_. True)\<rparr>
     (Some ''foo'') \<lparr>comics = Map.empty, cache = Map.empty\<rparr> ''foo''
     [''http://s/1.jpg'', ''http://s/2.jpg'']
   \<and> map_option (map Str)
        (getComicFromDB (\<lambda>k. k = 0)
          (comics (snd (get_comic
             \<lparr>now = 0, db_read_ok = (\<lambda>_. True),
              scrape = Extracted [''http://s/1.jpg'', ''http://s/2.jpg''],
              upload_attempt = (\<lambda>i r. if i = 0 then Some ''https://cdn/foo_1.jpg''
                                       else Some ''https://cdn/foo_2.jpg''),
              db_write_ok = (\<lambda>k. k = 0), db_recheck_ok = (\<lambda>_. True)\<rparr>
             (Some ''foo'') \<lparr>comics = Map.empty, cache = Map.empty\<rparr>))) ''foo'' 0)
      = Some [Str ''https://cdn/foo_1.jpg'', Str ''https://cdn/foo_2.jpg'']"
proof -
  let ?e = "\<lparr>now = 0, db_read_ok = (\<lambda>_. True),
      scrape = Extracted [''http://s/1.jpg'', ''http://s/2.jpg''],
      upload_attempt = (\<lambda>i r. if i = 0 then Some ''https://cdn/foo_1.jpg''
                               else Some ''https://cdn/foo_2.jpg''),
      db_write_ok = (\<lambda>k. k = 0), db_recheck_ok = (\<lambda>_. True)\<rparr>"
  let ?st = "\<lparr>comics = Map.empty, cache = Map.empty\<rparr>"
  have fresh: "scrapes_fresh ?e (Some ''foo'') ?st ''foo'' [''http://s/1.jpg'', ''http://s/2.jpg'']"
    by (simp add: scrapes_fresh_def cleanSlug_def getComicFromDB.simps cache_get_def)
  have ups: "[Str ''https://cdn/foo_1.jpg'', Str ''https://cdn/foo_2.jpg''] =
     successful_uploads (upload_attempt ?e)
       (length (filter absolute_http [''http://s/1.jpg'', ''http://s/2.jpg'']))"
    by (simp add: successful_uploads_def upload_image_0 numeral_2_eq_2 absolute_http_def)
  show ?thesis
    using getComicFromDB_after_ingestion [OF fresh ups, of "\<lambda>k. k = 0"] fresh
    by simp
qed



section \<open>Properties of the browser pool\<close>

lemma launch_bounds:
  "length (browserPool (launch b p)) \<le> Suc (length (browserPool p))"
  "checkedOut (launch b p) = checkedOut p"
  by (simp_all add: launch_def)

lemma launch_loop_bounds:
  "length (browserPool (foldl (\<lambda>q i. launch (ok i) q) p xs)) \<le> length (browserPool p) + length xs
   \<and> checkedOut (foldl (\<lambda>q i. launch (ok i) q) p xs) = checkedOut p"
proof (induction xs arbitrary: p)
  case Nil
  show ?case by simp
next
  case (Cons a xs)
  from Cons.IH [of "launch (ok a) p"] launch_bounds [of "ok a" p]
  show ?case by simp
qed

lemma pool_inv_init: "pool_inv P (initBrowserPool P ok empty_pool)"
  using launch_loop_bounds [of ok empty_pool "[0..<P]"]
  by (simp add: pool_inv_def initBrowserPool_def empty_pool_def)

lemma pool_inv_step:
  assumes "pool_inv P p" "ev \<noteq> Recycle"
  shows "pool_inv P (pool_step P ok p ev)"
proof (cases ev)
  case Acquire
  with assms show ?thesis
    by (cases "browserPool p" rule: rev_cases) (auto simp: pool_inv_def getBrowser_def Let_def)
next
  case (Release b)
  show ?thesis
  proof (cases "b \<in> set (checkedOut p)")
    case True
    then have "length (remove1 b (checkedOut p)) = length (checkedOut p) - 1"
      and "length (checkedOut p) > 0"
      by (auto simp: length_remove1)
    with assms Release True show ?thesis
      by (auto simp: pool_inv_def releaseBrowser_def)
  next
    case False
    with assms Release show ?thesis by simp
  qed
next
  case Recycle
  with assms show ?thesis by simp
qed

lemma pool_inv_run:
  "pool_inv P p \<Longrightarrow> Recycle \<notin> set evs \<Longrightarrow> pool_inv P (foldl (pool_step P ok) p evs)"
  by (induction evs arbitrary: p) (auto simp: pool_inv_step)

text \<open>
  C7 as stated fails across the hourly recycle: with the three sessions of the pool
  checked out, the recycle finds no idle session to close and launches three new ones,
  which three further requests check out, so six sessions are out at once.
\<close>

theorem pool_recycle_counterexample:
  "length (checkedOut (pool_run POOL_SIZE (\<lambda>_. True)
             [Acquire, Acquire, Acquire, Recycle, Acquire, Acquire, Acquire])) = 6
   \<and> POOL_SIZE = 3"
  by (simp add: pool_run_def POOL_SIZE_def initBrowserPool_def empty_pool_def launch_def
                getBrowser_def recycle_def Let_def numeral_3_eq_3)

text \<open>
  C7, amended. For every pool size \<open>P\<close>, after \<open>initialize()\<close> and until the next recycle,
  the checked-out sessions and the idle sessions together never exceed \<open>P\<close>, so neither
  the number of checked-out sessions nor the idle pool exceeds \<open>P\<close>; and every release
  either appends the session to the idle pool (when its size is below \<open>P\<close>) or closes
  it, so a release never grows the idle pool beyond \<open>P\<close>.
\<close>

theorem pool_bounds_between_recycles:
  assumes "Recycle \<notin> set evs"
  shows "length (checkedOut (pool_run P ok evs)) + length (browserPool (pool_run P ok evs)) \<le> P
       \<and> length (checkedOut (pool_run P ok evs)) \<le> P
       \<and> length (browserPool (pool_run P ok evs)) \<le> P
       \<and> (\<forall>p b. (length (browserPool p) < P \<longrightarrow>
                    browserPool (releaseBrowser P b p) = browserPool p @ [b]
                    \<and> closed (releaseBrowser P b p) = closed p)
                \<and> (\<not> length (browserPool p) < P \<longrightarrow>
                    browserPool (releaseBrowser P b p) = browserPool p
                    \<and> closed (releaseBrowser P b p) = b # closed p)
                \<and> (length (browserPool p) \<le> P \<longrightarrow>
                    length (browserPool (releaseBrowser P b p)) \<le> P))"
proof -
  have "pool_inv P (pool_run P ok evs)"
    unfolding pool_run_def using pool_inv_init assms by (rule pool_inv_run)
  then show ?thesis
    by (auto simp: pool_inv_def releaseBrowser_def)
qed

theorem pool_bounds_between_recycles_witness:
  "Recycle \<notin> set [Acquire, Acquire, Release 2, Acquire, Acquire, Acquire]
   \<and> length (checkedOut (pool_run POOL_SIZE (\<lambda>_. True)
               [Acquire, Acquire, Release 2, Acquire, Acquire, Acquire])) \<le> POOL_SIZE
   \<and> checkedOut (pool_run POOL_SIZE (\<lambda>_. True)
               [Acquire, Acquire, Release 2, Acquire, Acquire, Acquire]) = [0, 2, 1]
   \<and> browserPool (pool_run POOL_SIZE (\<lambda>_. True)
               [Acquire, Acquire, Release 2, Acquire, Acquire, Acquire]) = []
   \<and> browserPool (releaseBrowser POOL_SIZE 2 (pool_run POOL_SIZE (\<lambda>_. True) [Acquire]))
       = [0, 1, 2]
   \<and> browserPool (releaseBrowser POOL_SIZE 9 (pool_run POOL_SIZE (\<lambda>_. True) []))
       = [0, 1, 2]
   \<and> closed (releaseBrowser POOL_SIZE 9 (pool_run POOL_SIZE (\<lambda>_. True) [])) = [9]"
  using pool_bounds_between_recycles
          [of "[Acquire, Acquire, Release 2, Acquire, Acquire, Acquire]" POOL_SIZE "\<lambda>_. True"]
  by (simp add: pool_run_def POOL_SIZE_def initBrowserPool_def empty_pool_def launch_def
                getBrowser_def releaseBrowser_def Let_def numeral_3_eq_3)

section \<open>Properties of the single-flight locks\<close>

lemma lock_inv_init: "lock_inv no_locks"
  by (simp add: lock_inv_def no_locks_def fetch_jobs_def thumbnail_jobs_def)

lemma lock_inv_json: "lock_inv l \<Longrightarrow> lock_inv (snd (auto_json_start t param l))"
  by (simp add: lock_inv_def auto_json_start_def Let_def fetch_jobs_def thumbnail_jobs_def)

lemma lock_inv_fetch: "lock_inv l \<Longrightarrow> lock_inv (snd (auto_fetch_start t param l))"
  by (simp add: lock_inv_def auto_fetch_start_def Let_def fetch_jobs_def thumbnail_jobs_def)

lemma lock_inv_thumbnail: "lock_inv l \<Longrightarrow> lock_inv (snd (auto_thumbnail_start t param l))"
  by (simp add: lock_inv_def auto_thumbnail_start_def Let_def fetch_jobs_def thumbnail_jobs_def)

lemma lock_inv_start: "lock_inv l \<Longrightarrow> lock_inv (snd (batch_start ep t param l))"
  by (cases ep) (simp_all add: lock_inv_json lock_inv_fetch lock_inv_thumbnail)

lemma release_thumbnail_jobs:
  "thumbnail_jobs (releaseLock AutoThumbnail l) = []"
  "fetch_jobs (releaseLock AutoThumbnail l) = fetch_jobs l"
  by (simp_all add: thumbnail_jobs_def fetch_jobs_def filter_empty_conv)

lemma release_fetch_jobs:
  assumes "ep \<noteq> AutoThumbnail"
  shows "thumbnail_jobs (releaseLock ep l) = thumbnail_jobs l"
    and "fetch_jobs (releaseLock ep l) = filter (\<lambda>j. fst j \<noteq> ep) (fetch_jobs l)"
proof -
  have "filter (\<lambda>j. fst j = AutoThumbnail) (filter (\<lambda>j. fst j \<noteq> ep) xs)
        = filter (\<lambda>j. fst j = AutoThumbnail) xs" for xs :: "(endpoint \<times> operation) list"
    using assms by (induction xs) auto
  then show "thumbnail_jobs (releaseLock ep l) = thumbnail_jobs l"
    using assms by (cases ep) (simp_all add: thumbnail_jobs_def del: filter_filter)
  have "filter (\<lambda>j. fst j \<noteq> AutoThumbnail) (filter (\<lambda>j. fst j \<noteq> ep) xs)
        = filter (\<lambda>j. fst j \<noteq> ep) (filter (\<lambda>j. fst j \<noteq> AutoThumbnail) xs)"
    for xs :: "(endpoint \<times> operation) list"
    by (induction xs) auto
  then show "fetch_jobs (releaseLock ep l) = filter (\<lambda>j. fst j \<noteq> ep) (fetch_jobs l)"
    using assms by (cases ep) (simp_all add: fetch_jobs_def del: filter_filter)
qed

lemma release_flags:
  "autoThumbnailInProgress (releaseLock AutoThumbnail l) = False"
  "autoFetchInProgress (releaseLock AutoThumbnail l) = autoFetchInProgress l"
  "currentAutoFetchOperation (releaseLock AutoThumbnail l) = currentAutoFetchOperation l"
  "ep \<noteq> AutoThumbnail \<Longrightarrow> autoFetchInProgress (releaseLock ep l) = False"
  "ep \<noteq> AutoThumbnail \<Longrightarrow> autoThumbnailInProgress (releaseLock ep l) = autoThumbnailInProgress l"
  "ep \<noteq> AutoThumbnail \<Longrightarrow> currentThumbnailOperation (releaseLock ep l) = currentThumbnailOperation l"
  by (cases ep; simp)+

lemma lock_inv_release:
  assumes "lock_inv l" "ep \<in> fst ` set (inFlight l)"
  shows "lock_inv (releaseLock ep l)"
proof (cases "ep = AutoThumbnail")
  case True
  from assms(1) show ?thesis
    unfolding True lock_inv_def
    by (simp add: release_thumbnail_jobs release_flags del: releaseLock.simps)
next
  case False
  from assms(2) obtain job where "(ep, job) \<in> set (inFlight l)" by auto
  with False have mem: "(ep, job) \<in> set (fetch_jobs l)"
    by (simp add: fetch_jobs_def)
  then have "fetch_jobs l \<noteq> []" by auto
  with assms(1) obtain j where j: "fetch_jobs l = [j]"
    unfolding lock_inv_def by blast
  with mem have "fst j = ep" by auto
  with j have "filter (\<lambda>j. fst j \<noteq> ep) (fetch_jobs l) = []" by simp
  with assms(1) show ?thesis
    unfolding lock_inv_def
    by (simp add: release_fetch_jobs [OF False] release_flags False del: releaseLock.simps)
qed

lemma lock_inv_step: "lock_inv l \<Longrightarrow> lock_inv (lock_step l ev)"
  by (cases ev) (simp_all add: lock_inv_start lock_inv_release del: releaseLock.simps batch_start.simps)

lemma lock_inv_foldl: "lock_inv l \<Longrightarrow> lock_inv (foldl lock_step l evs)"
  by (induction evs arbitrary: l) (simp_all add: lock_inv_step)

lemma lock_inv_run: "lock_inv (lock_run evs)"
  unfolding lock_run_def using lock_inv_init by (rule lock_inv_foldl)

text \<open>
  C4 as stated fails: the three endpoints do not share one lock. With an \<open>/auto-fetch\<close>
  job in flight, an \<open>/auto-thumbnail\<close> request is not rejected; it starts, and two batch
  jobs are in flight at once.
\<close>

theorem single_flight_counterexample:
  "fst (batch_start AutoThumbnail 1000 (Some ''isekai'')
          (lock_run [StartRequest AutoFetch 0 (Some ''isekai'')])) = Started
   \<and> map fst (inFlight (lock_run [StartRequest AutoFetch 0 (Some ''isekai''),
                                   StartRequest AutoThumbnail 1000 (Some ''isekai'')]))
       = [AutoThumbnail, AutoFetch]"
  by (simp add: lock_run_def no_locks_def auto_fetch_start_def auto_thumbnail_start_def
                falsy_def Let_def)

text \<open>
  C4, amended. At any time at most one job of \<open>/auto-fetch\<close> and \<open>/auto-json\<close> together
  is in flight, and at most one \<open>/auto-thumbnail\<close> job. While a job is in flight, a
  batch-start request to an endpoint behind the same flag (for \<open>/auto-fetch\<close> and
  \<open>/auto-thumbnail\<close>: one that carries a query, which is checked first) is answered 429
  with the in-flight job's start time and elapsed seconds and the field the endpoint
  reports (\<open>file\<close> for \<open>/auto-json\<close>, \<open>query\<close> for the two others) of the in-flight
  operation, and leaves the state as it was: no second job starts behind that flag.
\<close>

theorem single_flight_per_flag:
  "length (fetch_jobs (lock_run evs)) \<le> 1
   \<and> length (thumbnail_jobs (lock_run evs)) \<le> 1
   \<and> (\<forall>running\<in>set (inFlight (lock_run evs)). \<forall>ep t param.
         (fst running = AutoThumbnail) = (ep = AutoThumbnail) \<and> (ep = AutoJson \<or> \<not> falsy param)
         \<longrightarrow> batch_start ep t param (lock_run evs)
               = (Status429 (rejection (reported_field ep) (Some (snd running)) t), lock_run evs))"
proof -
  have inv: "lock_inv (lock_run evs)" by (rule lock_inv_run)
  have 1: "length (fetch_jobs (lock_run evs)) \<le> 1"
    using inv unfolding lock_inv_def by (cases "autoFetchInProgress (lock_run evs)") auto
  have 2: "length (thumbnail_jobs (lock_run evs)) \<le> 1"
    using inv unfolding lock_inv_def by (cases "autoThumbnailInProgress (lock_run evs)") auto
  have 3: "batch_start ep t param (lock_run evs)
             = (Status429 (rejection (reported_field ep) (Some (snd running)) t), lock_run evs)"
    if r: "running \<in> set (inFlight (lock_run evs))"
      and same: "(fst running = AutoThumbnail) = (ep = AutoThumbnail)"
      and valid: "ep = AutoJson \<or> \<not> falsy param"
    for running ep t param
  proof (cases "ep = AutoThumbnail")
    case True
    with r same have "running \<in> set (thumbnail_jobs (lock_run evs))"
      by (simp add: thumbnail_jobs_def)
    with inv have "autoThumbnailInProgress (lock_run evs)"
      and "currentThumbnailOperation (lock_run evs) = Some (snd running)"
      unfolding lock_inv_def by (cases "autoThumbnailInProgress (lock_run evs)"; auto)+
    with True valid show ?thesis
      by (simp add: auto_thumbnail_start_def Let_def)
  next
    case False
    with r same have "running \<in> set (fetch_jobs (lock_run evs))"
      by (simp add: fetch_jobs_def)
    with inv have "autoFetchInProgress (lock_run evs)"
      and "currentAutoFetchOperation (lock_run evs) = Some (snd running)"
      unfolding lock_inv_def by (cases "autoFetchInProgress (lock_run evs)"; auto)+
    with False valid show ?thesis
      by (cases ep) (simp_all add: auto_json_start_def auto_fetch_start_def Let_def)
  qed
  from 1 2 3 show ?thesis by blast
qed

theorem single_flight_per_flag_witness:
  "(AutoFetch, \<lparr>op_file = None, op_query = Some ''isekai'', startedAt = 0\<rparr>)
     \<in> set (inFlight (lock_run [StartRequest AutoFetch 0 (Some ''isekai'')]))
   \<and> batch_start AutoJson 5000 None (lock_run [StartRequest AutoFetch 0 (Some ''isekai'')])
       = (Status429 \<lparr>identity = None, rej_startedAt = Some 0, elapsedSeconds = 5\<rparr>,
          lock_run [StartRequest AutoFetch 0 (Some ''isekai'')])
   \<and> batch_start AutoFetch 5000 (Some ''x'') (lock_run [StartRequest AutoFetch 0 (Some ''isekai'')])
       = (Status429 \<lparr>identity = Some ''isekai'', rej_startedAt = Some 0, elapsedSeconds = 5\<rparr>,
          lock_run [StartRequest AutoFetch 0 (Some ''isekai'')])"
proof -
  have mem: "(AutoFetch, \<lparr>op_file = None, op_query = Some ''isekai'', startedAt = 0\<rparr>)
     \<in> set (inFlight (lock_run [StartRequest AutoFetch 0 (Some ''isekai'')]))"
    by (simp add: lock_run_def no_locks_def auto_fetch_start_def falsy_def Let_def)
  from single_flight_per_flag [of "[StartRequest AutoFetch 0 (Some ''isekai'')]"]
  have all: "\<forall>running\<in>set (inFlight (lock_run [StartRequest AutoFetch 0 (Some ''isekai'')])).
      \<forall>ep t param.
         (fst running = AutoThumbnail) = (ep = AutoThumbnail) \<and> (ep = AutoJson \<or> \<not> falsy param)
         \<longrightarrow> batch_start ep t param (lock_run [StartRequest AutoFetch 0 (Some ''isekai'')])
               = (Status429 (rejection (reported_field ep) (Some (snd running)) t),
                  lock_run [StartRequest AutoFetch 0 (Some ''isekai'')])"
    by blast
  note inst = bspec [OF all mem, rule_format]
  have j: "batch_start AutoJson 5000 None (lock_run [StartRequest AutoFetch 0 (Some ''isekai'')])
      = (Status429 (rejection (reported_field AutoJson)
           (Some (snd (AutoFetch, \<lparr>op_file = None, op_query = Some ''isekai'', startedAt = 0\<rparr>)))
           5000),
         lock_run [StartRequest AutoFetch 0 (Some ''isekai'')])"
    by (rule inst) simp
  have f: "batch_start AutoFetch 5000 (Some ''x'') (lock_run [StartRequest AutoFetch 0 (Some ''isekai'')])
      = (Status429 (rejection (reported_field AutoFetch)
           (Some (snd (AutoFetch, \<lparr>op_file = None, op_query = Some ''isekai'', startedAt = 0\<rparr>)))
           5000),
         lock_run [StartRequest AutoFetch 0 (Some ''isekai'')])"
    by (rule inst) (simp add: falsy_def)
  show ?thesis
    unfolding j f using mem by (simp add: rejection_def)
qed

section \<open>Properties of the manifest-driven orchestrator\<close>

lemma chunks_5:
  "chunks_from [entry ''a'', entry ''b'', entry ''c'', entry ''d'', entry ''e''] 0
     = [[entry ''a'', entry ''b'', entry ''c''], [entry ''d'', entry ''e'']]"
  by (simp add: chunks_from.simps concurrencyLimit_def)

lemma entry_falsy: "falsy (chapter_slug (entry (c # cs))) = False"
  by (simp add: entry_def falsy_def)

lemma chunk0:
  "process_chunk (answers (\<lambda>i. i = 0)) 0 [entry ''a'', entry ''b'', entry ''c'']
     (load_manifest [entry ''a'', entry ''b'', entry ''c'', entry ''d'', entry ''e''])
   = Inr \<lparr>chapters = [entry ''b'', entry ''c'', entry ''d'', entry ''e''],
          file_chapters = [entry ''b'', entry ''c'', entry ''d'', entry ''e''],
          processed = [], in_flight = [],
          results = [(entry ''a'', Ok), (entry ''b'', Failed), (entry ''c'', Failed)],
          resets = 0, pauses = 0\<rparr>"
  by (simp add: process_chunk_def answers_def load_manifest_def process_chapter_def entry_falsy
                enumerate_eq_zip concurrencyLimit_def splice1_def Let_def upt_rec [of 0]
                upt_rec [of 1] upt_rec [of 2] map_filter_simps)

lemma chunk1:
  "process_chunk (answers (\<lambda>i. i = 0)) (Suc 0) [entry ''d'', entry ''e'']
     \<lparr>chapters = [entry ''b'', entry ''c'', entry ''d'', entry ''e''],
      file_chapters = [entry ''b'', entry ''c'', entry ''d'', entry ''e''],
      processed = [], in_flight = [],
      results = [(entry ''a'', Ok), (entry ''b'', Failed), (entry ''c'', Failed)],
      resets = 0, pauses = 0\<rparr>
   = Inr \<lparr>chapters = [entry ''b'', entry ''c'', entry ''d''],
          file_chapters = [entry ''b'', entry ''c'', entry ''d''],
          processed = [], in_flight = [],
          results = [(entry ''a'', Ok), (entry ''b'', Failed), (entry ''c'', Failed),
                     (entry ''d'', Ok), (entry ''e'', Failed)],
          resets = 0, pauses = 0\<rparr>"
  by (simp add: process_chunk_def answers_def process_chapter_def entry_falsy
                enumerate_eq_zip concurrencyLimit_def splice1_def Let_def upt_rec [of 0]
                upt_rec [of 1] upt_rec [of 2] map_filter_simps)

text \<open>
  C5 at a failing input. The manifest lists \<open>a, b, c, d, e\<close>; of the first wave
  \<open>a, b, c\<close> only \<open>a\<close> succeeds, of the second wave \<open>d, e\<close> only \<open>d\<close>. After the first
  wave the file holds \<open>b, c, d, e\<close>, as C5 says. In the second wave the entry pushed for
  \<open>d\<close> carries the index \<open>1 * 3 + 0 = 3\<close>, its position before the first wave removed
  \<open>a\<close>; \<open>splice(3, 1)\<close> on \<open>b, c, d, e\<close> removes \<open>e\<close>. The file then holds
  \<open>b, c, d\<close>, where C5 asks for \<open>b, c, e\<close>: the chapter that succeeded stays and the one
  that failed is dropped.
\<close>

theorem manifest_rewrite_shifted_index:
  "map_sum id file_chapters
     (process_chunk (answers (\<lambda>i. i = 0)) 0 [entry ''a'', entry ''b'', entry ''c'']
        (load_manifest [entry ''a'', entry ''b'', entry ''c'', entry ''d'', entry ''e'']))
     = Inr [entry ''b'', entry ''c'', entry ''d'', entry ''e'']
   \<and> wave_ok (answers (\<lambda>i. i = 0)) [entry ''d'', entry ''e''] = [entry ''d'']
   \<and> without [entry ''b'', entry ''c'', entry ''d'', entry ''e''] [entry ''d'']
        = [entry ''b'', entry ''c'', entry ''e'']
   \<and> map_sum id file_chapters
        (processChapters (\<lambda>k. answers (\<lambda>i. i = 0))
           [entry ''a'', entry ''b'', entry ''c'', entry ''d'', entry ''e'']
           (load_manifest [entry ''a'', entry ''b'', entry ''c'', entry ''d'', entry ''e'']))
     = Inr [entry ''b'', entry ''c'', entry ''d'']"
proof -
  have w: "wave_ok (answers (\<lambda>i. i = 0)) [entry ''d'', entry ''e''] = [entry ''d'']"
    by (simp add: wave_ok_def answers_def process_chapter_def entry_falsy enumerate_eq_zip
                  upt_rec [of 0] upt_rec [of 1] upt_rec [of 2])
  have wo: "without [entry ''b'', entry ''c'', entry ''d'', entry ''e''] [entry ''d'']
        = [entry ''b'', entry ''c'', entry ''e'']"
    by (simp add: without_def entry_def)
  have lm: "load_manifest [entry ''a'', entry ''b'', entry ''c'', entry ''d'', entry ''e'']
              \<lparr>results := [], processed := [], in_flight := []\<rparr>
            = load_manifest [entry ''a'', entry ''b'', entry ''c'', entry ''d'', entry ''e'']"
    by (simp add: load_manifest_def)
  show ?thesis
    by (simp add: processChapters_def chunks_5 lm chunk0 chunk1 w wo)
qed


















section \<open>Properties of the single-image rehost\<close>

lemma get_image_stored:
  assumes "get_image pathname_of env (Some u) tbl = (CdnUrl c, tbl', evs)"
    and "pathname_of u = Some p"
  shows "\<exists>row. tbl' (basename p) = Some row \<and> cdn_url row = c"
proof (cases "tbl (basename p)")
  case (Some existing)
  with assms show ?thesis
    by (auto simp: get_image_def Let_def split: if_splits)
next
  case None
  with assms show ?thesis
    by (auto simp: get_image_def Let_def upsert_thumbnail_def split: if_splits option.splits)
qed

text \<open>
  C10. The lookup of \<open>/get\<close> uses only the basename of the URL path. Once a \<open>/get\<close>
  request for a URL has answered with a CDN URL, a request for any URL whose path has
  the same basename, with the lookup query succeeding, answers with that same CDN URL,
  leaves the table unchanged, and does nothing but the lookup: no browser is acquired,
  nothing is fetched, uploaded or written.
\<close>

theorem get_keyed_by_basename:
  assumes "pathname_of u1 = Some p1"
    and "pathname_of u2 = Some p2"
    and "basename p1 = basename p2"
    and "u2 \<noteq> []"
    and "get_image pathname_of env1 (Some u1) tbl = (CdnUrl c1, tbl1, evs1)"
    and "select_ok env2"
  shows "get_image pathname_of env2 (Some u2) tbl1
           = (CdnUrl c1, tbl1, [SelectThumbnail (basename p2)])"
proof -
  from get_image_stored [OF assms(5) assms(1)] assms(3)
  obtain row where "tbl1 (basename p2) = Some row" "cdn_url row = c1" by auto
  with assms(2,4,6) show ?thesis
    by (simp add: get_image_def Let_def)
qed

theorem get_keyed_by_basename_witness:
  "''https://a.example/covers/45673.jpg'' \<noteq> ''https://b.example/other/45673.jpg''
   \<and> basename ''/covers/45673.jpg'' = basename ''/other/45673.jpg''
   \<and> get_image
        (\<lambda>u. if u = ''https://a.example/covers/45673.jpg'' then Some ''/covers/45673.jpg''
              else if u = ''https://b.example/other/45673.jpg'' then Some ''/other/45673.jpg''
              else None)
        \<lparr>select_ok = True, page_load = Some (''https://a.example/covers/45673.jpg'', [1, 2, 3]),
         upload_result = Some ''https://cdn.example/IMAGES/45673.jpg'', upsert_ok = True\<rparr>
        (Some ''https://a.example/covers/45673.jpg'') Map.empty
      = (CdnUrl ''https://cdn.example/IMAGES/45673.jpg'',
         [''45673.jpg'' \<mapsto> \<lparr>source_url = ''https://a.example/covers/45673.jpg'',
                                cdn_url = ''https://cdn.example/IMAGES/45673.jpg''\<rparr>],
         [SelectThumbnail ''45673.jpg'', GetBrowser, Goto ''https://a.example/covers/45673.jpg'',
          Goto ''https://a.example/covers/45673.jpg'', UploadToR2 ''IMAGES/45673.jpg'',
          UpsertThumbnail ''45673.jpg'', ReleaseBrowser])
   \<and> get_image
        (\<lambda>u. if u = ''https://a.example/covers/45673.jpg'' then Some ''/covers/45673.jpg''
              else if u = ''https://b.example/other/45673.jpg'' then Some ''/other/45673.jpg''
              else None)
        \<lparr>select_ok = True, page_load = Some (''https://b.example/other/45673.jpg'', [4, 5, 6]),
         upload_result = Some ''https://cdn.example/IMAGES/other.jpg'', upsert_ok = True\<rparr>
        (Some ''https://b.example/other/45673.jpg'')
        [''45673.jpg'' \<mapsto> \<lparr>source_url = ''https://a.example/covers/45673.jpg'',
                               cdn_url = ''https://cdn.example/IMAGES/45673.jpg''\<rparr>]
      = (CdnUrl ''https://cdn.example/IMAGES/45673.jpg'',
         [''45673.jpg'' \<mapsto> \<lparr>source_url = ''https://a.example/covers/45673.jpg'',
                                cdn_url = ''https://cdn.example/IMAGES/45673.jpg''\<rparr>],
         [SelectThumbnail ''45673.jpg''])"
proof -
  let ?pn = "\<lambda>u. if u = ''https://a.example/covers/45673.jpg'' then Some ''/covers/45673.jpg''
              else if u = ''https://b.example/other/45673.jpg'' then Some ''/other/45673.jpg''
              else None"
  let ?e1 = "\<lparr>select_ok = True, page_load = Some (''https://a.example/covers/45673.jpg'', [1, 2, 3]),
         upload_result = Some ''https://cdn.example/IMAGES/45673.jpg'', upsert_ok = True\<rparr>"
  let ?e2 = "\<lparr>select_ok = True, page_load = Some (''https://b.example/other/45673.jpg'', [4, 5, 6]),
         upload_result = Some ''https://cdn.example/IMAGES/other.jpg'', upsert_ok = True\<rparr>"
  have b1: "basename ''/covers/45673.jpg'' = ''45673.jpg''"
    and b2: "basename ''/other/45673.jpg'' = ''45673.jpg''"
    by (simp_all add: basename_def)
  have first: "get_image ?pn ?e1 (Some ''https://a.example/covers/45673.jpg'') Map.empty
      = (CdnUrl ''https://cdn.example/IMAGES/45673.jpg'',
         [''45673.jpg'' \<mapsto> \<lparr>source_url = ''https://a.example/covers/45673.jpg'',
                                cdn_url = ''https://cdn.example/IMAGES/45673.jpg''\<rparr>],
         [SelectThumbnail ''45673.jpg'', GetBrowser, Goto ''https://a.example/covers/45673.jpg'',
          Goto ''https://a.example/covers/45673.jpg'', UploadToR2 ''IMAGES/45673.jpg'',
          UpsertThumbnail ''45673.jpg'', ReleaseBrowser])"
    by (simp add: get_image_def Let_def b1 upsert_thumbnail_def)
  have p1: "?pn ''https://a.example/covers/45673.jpg'' = Some ''/covers/45673.jpg''" by simp
  have p2: "?pn ''https://b.example/other/45673.jpg'' = Some ''/other/45673.jpg''" by simp
  have same: "basename ''/covers/45673.jpg'' = basename ''/other/45673.jpg''"
    by (simp add: b1 b2)
  have ne: "''https://b.example/other/45673.jpg'' \<noteq> []" by simp
  have sel: "select_ok ?e2" by simp
  from get_keyed_by_basename [of ?pn, OF p1 p2 same ne first sel] first same
  show ?thesis by (simp add: b2)
qed

end
